theory Spec2Isabelle
  imports Complex_Main "HOL-Library.Word"
begin

section \<open>JavaScript strings\<close>

text \<open>
  A JavaScript string is a sequence of 16-bit UTF-16 code units. The string methods and
  the regular expressions of \<^verbatim>\<open>pdfService.js\<close> (none has the \<^verbatim>\<open>u\<close> flag) work on
  code units, so a character outside the Basic Multilingual Plane counts as two.
\<close>

type_synonym jschar = "16 word"
type_synonym jsstring = "jschar list"

text \<open>An ASCII literal of the source, as code units.\<close>

definition js :: "string \<Rightarrow> jsstring" where
  "js s = map (\<lambda>c. of_nat (of_char c)) s"

definition isDigit :: "jschar \<Rightarrow> bool" where
  "isDigit c = (0x30 \<le> c \<and> c \<le> 0x39)"

text \<open>
  The class \<^verbatim>\<open>[a-z0-9]\<close> under the \<^verbatim>\<open>i\<close> flag. Without the \<^verbatim>\<open>u\<close> flag the
  case folding of a regular expression never maps a code unit above 127 to an ASCII one,
  so the class holds the ASCII letters of both cases and the ASCII digits, nothing else.
\<close>

definition isAlnum :: "jschar \<Rightarrow> bool" where
  "isAlnum c = ((0x61 \<le> c \<and> c \<le> 0x7A) \<or> (0x41 \<le> c \<and> c \<le> 0x5A) \<or> isDigit c)"

text \<open>
  White space as \<^verbatim>\<open>String.prototype.trim\<close> and the class \<^verbatim>\<open>\s\<close> see it: the
  ECMAScript WhiteSpace and LineTerminator code points.
\<close>

definition isWhiteSpace :: "jschar \<Rightarrow> bool" where
  "isWhiteSpace c =
     (c = 0x09 \<or> c = 0x0A \<or> c = 0x0B \<or> c = 0x0C \<or> c = 0x0D \<or> c = 0x20 \<or> c = 0xA0
      \<or> c = 0x1680 \<or> (0x2000 \<le> c \<and> c \<le> 0x200A) \<or> c = 0x2028 \<or> c = 0x2029
      \<or> c = 0x202F \<or> c = 0x205F \<or> c = 0x3000 \<or> c = 0xFEFF)"

abbreviation underscore :: jschar where
  "underscore \<equiv> 0x5F"

text \<open>\<^verbatim>\<open>s.trim()\<close>\<close>

definition jsTrim :: "jsstring \<Rightarrow> jsstring" where
  "jsTrim s = rev (dropWhile isWhiteSpace (rev (dropWhile isWhiteSpace s)))"

text \<open>\<^verbatim>\<open>s.startsWith(p)\<close>\<close>

fun startsWith :: "jsstring \<Rightarrow> jsstring \<Rightarrow> bool" where
  "startsWith s [] = True"
| "startsWith [] (p # ps) = False"
| "startsWith (c # cs) (p # ps) = (c = p \<and> startsWith cs ps)"

text \<open>\<^verbatim>\<open>s.includes(p)\<close>\<close>

fun jsIncludes :: "jsstring \<Rightarrow> jsstring \<Rightarrow> bool" where
  "jsIncludes [] p = (p = [])"
| "jsIncludes (c # cs) p = (startsWith (c # cs) p \<or> jsIncludes cs p)"

text \<open>\<^verbatim>\<open>s.substring(n)\<close> and \<^verbatim>\<open>s.substring(0, n)\<close>, for a literal \<open>n \<ge> 0\<close>.\<close>

definition substringFrom :: "jsstring \<Rightarrow> nat \<Rightarrow> jsstring" where
  "substringFrom s n = drop n s"

definition substringTo :: "jsstring \<Rightarrow> nat \<Rightarrow> jsstring" where
  "substringTo s n = take n s"

text \<open>
  \<^verbatim>\<open>s.split(sep)\<close> for a non-empty separator, as at both call sites
  (\<^verbatim>\<open>'\n'\<close> and \<^verbatim>\<open>'**'\<close>): the occurrences of the separator are found from the
  left and do not overlap; the empty string splits into one empty piece.
\<close>

fun jsSplit :: "jsstring \<Rightarrow> jsstring \<Rightarrow> jsstring list" where
  "jsSplit sep [] = [[]]"
| "jsSplit sep (c # cs) =
     (if sep \<noteq> [] \<and> startsWith (c # cs) sep
      then [] # jsSplit sep (drop (length sep) (c # cs))
      else (let r = jsSplit sep cs in (c # hd r) # tl r))"

text \<open>\<^verbatim>\<open>String(n)\<close> for a non-negative integer: its decimal digits.\<close>

fun showNat :: "nat \<Rightarrow> jsstring" where
  "showNat n = (if n < 10 then [0x30 + of_nat n] else showNat (n div 10) @ [0x30 + of_nat (n mod 10)])"

declare showNat.simps [simp del]

section \<open>The article record\<close>

text \<open>
  The article as \<^verbatim>\<open>pdfService.js\<close> reads it. An optional field is an \<open>option\<close>;
  the time stamps are milliseconds since the epoch.
\<close>

record author =
  user_name :: "jsstring option"
  user_email :: "jsstring option"

record article =
  art_title :: jsstring
  art_createdBy :: "author option"
  art_createdAt :: int
  art_updatedAt :: int
  art_viewCount :: "nat option"
  art_tags :: "jsstring list option"
  art_summary :: "jsstring option"
  art_content :: jsstring

text \<open>\<^verbatim>\<open>v || d\<close> on an optional string: absent and empty are both falsy.\<close>

definition orElse :: "jsstring option \<Rightarrow> jsstring \<Rightarrow> jsstring" where
  "orElse v d = (case v of None \<Rightarrow> d | Some s \<Rightarrow> if s = [] then d else s)"

section \<open>Filename derivation\<close>

text \<open>\<^verbatim>\<open>.replace(/[^a-z0-9]/gi, '_')\<close>\<close>

definition replaceNonAlnum :: "jsstring \<Rightarrow> jsstring" where
  "replaceNonAlnum s = map (\<lambda>c. if isAlnum c then c else underscore) s"

text \<open>
  \<^verbatim>\<open>.replace(/_{2,}/g, '_')\<close>: at the first of two adjacent underscores the greedy
  quantifier takes the whole run, which is replaced by one underscore; the search goes on
  after the run.
\<close>

function collapseUnderscores :: "jsstring \<Rightarrow> jsstring" where
  "collapseUnderscores (c # d # cs) =
     (if c = underscore \<and> d = underscore
      then underscore # collapseUnderscores (dropWhile (\<lambda>e. e = underscore) cs)
      else c # collapseUnderscores (d # cs))"
| "collapseUnderscores [c] = [c]"
| "collapseUnderscores [] = []"
  by pat_completeness auto
termination
proof (relation "measure length")
  fix c d :: jschar and cs :: jsstring
  have "length (dropWhile (\<lambda>e. e = underscore) cs) \<le> length cs"
    by (rule length_dropWhile_le)
  then show "(dropWhile (\<lambda>e. e = underscore) cs, c # d # cs) \<in> measure length"
    by simp
qed auto

text \<open>
  \<^verbatim>\<open>generateFilename(article)\<close>. The date
  \<^verbatim>\<open>new Date().toISOString().split('T')[0]\<close> is read from the clock; it is the
  parameter \<open>date\<close>. \<open>sanitizeTitle\<close> is the constant \<^verbatim>\<open>title\<close> of the source.
\<close>

definition sanitizeTitle :: "jsstring \<Rightarrow> jsstring" where
  "sanitizeTitle t = substringTo (collapseUnderscores (replaceNonAlnum t)) 50"

definition generateFilename :: "article \<Rightarrow> jsstring \<Rightarrow> jsstring" where
  "generateFilename a date =
     js ''article_'' @ sanitizeTitle (art_title a) @ js ''_'' @ date @ js ''.pdf''"

text \<open>No two adjacent underscores.\<close>

fun noDoubleUnderscore :: "jsstring \<Rightarrow> bool" where
  "noDoubleUnderscore (c # d # cs) =
     (\<not> (c = underscore \<and> d = underscore) \<and> noDoubleUnderscore (d # cs))"
| "noDoubleUnderscore cs = True"

text \<open>A character that is safe in a file name: an ASCII letter, a digit or the underscore.\<close>

definition isSafeChar :: "jschar \<Rightarrow> bool" where
  "isSafeChar c = (isAlnum c \<or> c = underscore)"

text \<open>An article with the given title and nothing else of note, for concrete runs.\<close>

definition titled :: "jsstring \<Rightarrow> article" where
  "titled t = \<lparr>art_title = t, art_createdBy = None, art_createdAt = 0, art_updatedAt = 0,
     art_viewCount = None, art_tags = None, art_summary = None, art_content = []\<rparr>"

section \<open>The PDFKit document\<close>

text \<open>
  \<^verbatim>\<open>pdfService.js\<close> draws through a \<^verbatim>\<open>PDFDocument\<close> of the PDFKit library.
  The document is modelled by what the service can observe of it: the pen position, the
  current font, size and colours, the buffer of pages that are still open, and the
  drawing operations in the order they were issued, each with the page it went to.
  Lengths are JavaScript numbers in the source; here they are rationals, so rounding is
  not modelled.

  PDFKit is a dependency of the repository, not part of it. Its methods are modelled
  after its documentation: pages are written out as soon as a new page is added unless
  the option \<^verbatim>\<open>bufferPages\<close> was given, \<^verbatim>\<open>bufferedPageRange\<close> and
  \<^verbatim>\<open>switchToPage\<close> see the buffered pages only, and \<^verbatim>\<open>text\<close> moves the pen to the
  position it is given and leaves it below what it drew. What depends on font metrics
  (widths, line heights, where lines and pages break) is a parameter.
\<close>

datatype font = Helvetica | HelveticaBold | HelveticaOblique

datatype align = AlignLeft | AlignRight | AlignJustify

record textOptions =
  opt_align :: "align option"
  opt_width :: "rat option"
  opt_lineGap :: "rat option"
  opt_indent :: "rat option"
  opt_continued :: bool

definition noOptions :: textOptions where
  "noOptions = \<lparr>opt_align = None, opt_width = None, opt_lineGap = None, opt_indent = None,
     opt_continued = False\<rparr>"

record textRun =
  run_text :: jsstring
  run_x :: rat
  run_y :: rat
  run_font :: font
  run_size :: rat
  run_color :: string
  run_options :: textOptions

datatype drawOp =
    Text textRun
  | Rect rat rat rat rat
  | MoveTo rat rat
  | LineTo rat rat
  | Stroke string rat
  | Fill string
  | FillAndStroke string string

record docInfo =
  info_Title :: jsstring
  info_Author :: jsstring
  info_Subject :: jsstring
  info_Creator :: jsstring
  info_CreationDate :: int

record pdfdoc =
  doc_info :: docInfo
  doc_bufferPages :: bool
  doc_margin :: rat
  doc_x :: rat
  doc_y :: rat
  doc_font :: font
  doc_fontSize :: rat
  doc_fillColor :: string
  doc_strokeColor :: string
  doc_lineWidth :: rat
  doc_pageBufferStart :: nat
  doc_pageBufferLength :: nat
  doc_page :: nat
  doc_ops :: "(nat \<times> drawOp) list"

text \<open>
  What the service takes from outside itself. The font metrics and the line wrapper of
  PDFKit, the locale formatting of dates, the clock and the file system are not part of
  the repository; they are parameters, and the theorems hold for all of them unless they
  say otherwise.
  \<^item> \<open>widthOfString f z s\<close>: the width of \<open>s\<close> in font \<open>f\<close> at size \<open>z\<close>;
  \<^item> \<open>currentLineHeight f z\<close>: the height of a line, gap included;
  \<^item> \<open>layoutText d s o\<close>: for \<^verbatim>\<open>doc.text(s, o)\<close> with the pen where \<open>d\<close> has it, the
    number of pages the line wrapper adds and the vertical position of the pen afterwards;
  \<^item> \<open>formatLong\<close>, \<open>formatShort\<close>: \<^verbatim>\<open>toLocaleDateString\<close> with and without the
    options of \<^verbatim>\<open>addMetadata\<close>;
  \<^item> \<open>now\<close>: \<^verbatim>\<open>new Date()\<close>;
  \<^item> \<open>writable p\<close>: whether \<^verbatim>\<open>fs.writeFileSync(p, ...)\<close> succeeds.
\<close>

record env =
  widthOfString :: "font \<Rightarrow> rat \<Rightarrow> jsstring \<Rightarrow> rat"
  currentLineHeight :: "font \<Rightarrow> rat \<Rightarrow> rat"
  layoutText :: "pdfdoc \<Rightarrow> jsstring \<Rightarrow> textOptions \<Rightarrow> nat \<times> rat"
  formatLong :: "int \<Rightarrow> jsstring"
  formatShort :: "int \<Rightarrow> jsstring"
  now :: int
  writable :: "jsstring \<Rightarrow> bool"

datatype error =
    SwitchToPageOutOfBounds nat nat nat
  | WriteFileFailed jsstring

text \<open>
  \<^verbatim>\<open>new PDFDocument({margin, size: 'A4', info})\<close>. The constructor adds the first
  page. The option \<^verbatim>\<open>bufferPages\<close> is false unless it is given.
\<close>

definition newPDFDocument :: "rat \<Rightarrow> bool \<Rightarrow> docInfo \<Rightarrow> pdfdoc" where
  "newPDFDocument margin bufferPages info =
     \<lparr>doc_info = info, doc_bufferPages = bufferPages, doc_margin = margin,
      doc_x = margin, doc_y = margin, doc_font = Helvetica, doc_fontSize = 12,
      doc_fillColor = ''black'', doc_strokeColor = ''black'', doc_lineWidth = 1,
      doc_pageBufferStart = 0, doc_pageBufferLength = 1, doc_page = 0, doc_ops = []\<rparr>"

text \<open>
  \<^verbatim>\<open>flushPages\<close> writes the buffered pages out and empties the buffer; the buffer then
  starts after them. \<^verbatim>\<open>addPage\<close> flushes first unless \<^verbatim>\<open>bufferPages\<close> is set, so
  without that option the buffer holds the last page only.
\<close>

definition flushPages :: "pdfdoc \<Rightarrow> pdfdoc" where
  "flushPages d = d\<lparr>doc_pageBufferStart := doc_pageBufferStart d + doc_pageBufferLength d,
     doc_pageBufferLength := 0\<rparr>"

definition addPage :: "pdfdoc \<Rightarrow> pdfdoc" where
  "addPage d =
     (let d = (if doc_bufferPages d then d else flushPages d)
      in d\<lparr>doc_page := doc_pageBufferStart d + doc_pageBufferLength d,
           doc_pageBufferLength := doc_pageBufferLength d + 1,
           doc_x := doc_margin d, doc_y := doc_margin d\<rparr>)"

text \<open>The number of pages of the document, written out or buffered.\<close>

definition pageCount :: "pdfdoc \<Rightarrow> nat" where
  "pageCount d = doc_pageBufferStart d + doc_pageBufferLength d"

text \<open>\<^verbatim>\<open>bufferedPageRange()\<close>: \<^verbatim>\<open>{start, count}\<close>.\<close>

definition bufferedPageRange :: "pdfdoc \<Rightarrow> nat \<times> nat" where
  "bufferedPageRange d = (doc_pageBufferStart d, doc_pageBufferLength d)"

text \<open>\<^verbatim>\<open>switchToPage(n)\<close> throws when page \<open>n\<close> is not in the buffer.\<close>

definition switchToPage :: "nat \<Rightarrow> pdfdoc \<Rightarrow> error + pdfdoc" where
  "switchToPage n d =
     (if doc_pageBufferStart d \<le> n \<and> n < doc_pageBufferStart d + doc_pageBufferLength d
      then Inr (d\<lparr>doc_page := n\<rparr>)
      else Inl (SwitchToPageOutOfBounds n (doc_pageBufferStart d) (doc_pageBufferLength d)))"

definition draw :: "drawOp \<Rightarrow> pdfdoc \<Rightarrow> pdfdoc" where
  "draw op d = d\<lparr>doc_ops := doc_ops d @ [(doc_page d, op)]\<rparr>"

definition fontSize :: "rat \<Rightarrow> pdfdoc \<Rightarrow> pdfdoc" where
  "fontSize z d = d\<lparr>doc_fontSize := z\<rparr>"

definition font :: "font \<Rightarrow> pdfdoc \<Rightarrow> pdfdoc" where
  "font f d = d\<lparr>doc_font := f\<rparr>"

definition fillColor :: "string \<Rightarrow> pdfdoc \<Rightarrow> pdfdoc" where
  "fillColor c d = d\<lparr>doc_fillColor := c\<rparr>"

definition strokeColor :: "string \<Rightarrow> pdfdoc \<Rightarrow> pdfdoc" where
  "strokeColor c d = d\<lparr>doc_strokeColor := c\<rparr>"

definition lineWidth :: "rat \<Rightarrow> pdfdoc \<Rightarrow> pdfdoc" where
  "lineWidth w d = d\<lparr>doc_lineWidth := w\<rparr>"

definition moveTo :: "rat \<Rightarrow> rat \<Rightarrow> pdfdoc \<Rightarrow> pdfdoc" where
  "moveTo px py d = draw (MoveTo px py) d"

definition lineTo :: "rat \<Rightarrow> rat \<Rightarrow> pdfdoc \<Rightarrow> pdfdoc" where
  "lineTo px py d = draw (LineTo px py) d"

definition stroke :: "pdfdoc \<Rightarrow> pdfdoc" where
  "stroke d = draw (Stroke (doc_strokeColor d) (doc_lineWidth d)) d"

definition rect :: "rat \<Rightarrow> rat \<Rightarrow> rat \<Rightarrow> rat \<Rightarrow> pdfdoc \<Rightarrow> pdfdoc" where
  "rect px py w h d = draw (Rect px py w h) d"

definition fill :: "string \<Rightarrow> pdfdoc \<Rightarrow> pdfdoc" where
  "fill c d = draw (Fill c) (fillColor c d)"

definition fillAndStroke :: "string \<Rightarrow> string \<Rightarrow> pdfdoc \<Rightarrow> pdfdoc" where
  "fillAndStroke f s d = draw (FillAndStroke f s) (strokeColor s (fillColor f d))"

text \<open>\<^verbatim>\<open>moveDown(n)\<close>: the pen goes down by \<open>n\<close> lines of the current font.\<close>

definition moveDown :: "env \<Rightarrow> rat \<Rightarrow> pdfdoc \<Rightarrow> pdfdoc" where
  "moveDown e n d = d\<lparr>doc_y := doc_y d + currentLineHeight e (doc_font d) (doc_fontSize d) * n\<rparr>"

text \<open>The pen after the optional position of a call was taken in.\<close>

definition penAt :: "(rat \<times> rat) option \<Rightarrow> pdfdoc \<Rightarrow> pdfdoc" where
  "penAt pos d = (case pos of None \<Rightarrow> d | Some (px, py) \<Rightarrow> d\<lparr>doc_x := px, doc_y := py\<rparr>)"

text \<open>
  \<open>docText\<close> is \<^verbatim>\<open>doc.text(s, x, y, options)\<close> and \<^verbatim>\<open>doc.text(s, options)\<close>
  (\<open>pos = None\<close>). A position that is given moves the pen first. The line wrapper then
  adds the pages it needs, the run is recorded once (on the page where it ends) with the
  font, size and colour current at the call, and the pen is left below the text;
  horizontally the pen stays where the call put it.
\<close>

definition docText :: "env \<Rightarrow> jsstring \<Rightarrow> (rat \<times> rat) option \<Rightarrow> textOptions \<Rightarrow> pdfdoc \<Rightarrow> pdfdoc" where
  "docText e s pos opts d =
     (let d = penAt pos d;
          (pages, y') = layoutText e d s opts;
          run = \<lparr>run_text = s, run_x = doc_x d, run_y = doc_y d, run_font = doc_font d,
                 run_size = doc_fontSize d, run_color = doc_fillColor d, run_options = opts\<rparr>;
          px = doc_x d;
          d = draw (Text run) ((addPage ^^ pages) d)
      in d\<lparr>doc_x := px, doc_y := y'\<rparr>)"

text \<open>A chain of calls on the document, \<^verbatim>\<open>doc.f(..).g(..)\<close>, applied from the left.\<close>

definition chain :: "pdfdoc \<Rightarrow> (pdfdoc \<Rightarrow> pdfdoc) list \<Rightarrow> pdfdoc" where
  "chain d fs = foldl (\<lambda>d f. f d) d fs"

section \<open>The PDF service\<close>

text \<open>The fields the constructor of \<^verbatim>\<open>PDFService\<close> sets.\<close>

definition defaultMargin :: rat where
  "defaultMargin = 50"

definition pageWidth :: rat where
  "pageWidth = 59528 / 100"

definition pageHeight :: rat where
  "pageHeight = 84189 / 100"

text \<open>
  The two objects a render works on: the article it was given and the document it
  builds. Every method of the service takes both and returns both, so that a write to
  either would show.
\<close>

record render =
  r_article :: article
  r_doc :: pdfdoc

text \<open>A statement that ends normally, or throws, with the objects as they are then.\<close>

datatype completion = Done render | Threw error render

subsection \<open>addHeader\<close>

definition addHeader :: "env \<Rightarrow> render \<Rightarrow> render" where
  "addHeader e s =
     (let article = r_article s; doc = r_doc s;
          doc = chain doc [fontSize 24, font HelveticaBold, fillColor ''#1f2937'',
                  docText e (art_title article) None
                    (noOptions\<lparr>opt_align := Some AlignLeft, opt_width := Some 500\<rparr>)];
          doc = moveDown e (1 / 2) doc;
          doc = chain doc [strokeColor ''#3b82f6'', lineWidth 2,
                  moveTo defaultMargin (doc_y doc),
                  lineTo (pageWidth - defaultMargin) (doc_y doc), stroke];
          doc = moveDown e 1 doc
      in s\<lparr>r_doc := doc\<rparr>)"

subsection \<open>addMetadata\<close>

text \<open>The array \<^verbatim>\<open>metadata\<close>: label and value of each row.\<close>

definition metadata :: "env \<Rightarrow> article \<Rightarrow> (jsstring \<times> jsstring) list" where
  "metadata e article =
     [(js ''Author'', orElse (Option.bind (art_createdBy article) user_name) (js ''Unknown Author'')),
      (js ''Email'', orElse (Option.bind (art_createdBy article) user_email) (js ''N/A'')),
      (js ''Created'', formatLong e (art_createdAt article)),
      (js ''Last Updated'', formatLong e (art_updatedAt article)),
      (js ''Views'', orElse (map_option showNat (art_viewCount article)) (js ''0''))]"

text \<open>
  The callback of \<^verbatim>\<open>metadata.forEach((item, index) => ...)\<close>. It reads \<^verbatim>\<open>doc.y\<close>
  when it runs, that is, after the rows before it were drawn.
\<close>

definition metadataRow :: "env \<Rightarrow> pdfdoc \<Rightarrow> nat \<times> jsstring \<times> jsstring \<Rightarrow> pdfdoc" where
  "metadataRow e doc = (\<lambda>(index, label, val).
     (let x = defaultMargin + 20;
          y = doc_y doc + of_nat index * 18
      in chain doc [font HelveticaBold,
           docText e (label @ js '':'') (Some (x, y)) (noOptions\<lparr>opt_width := Some 80\<rparr>),
           font Helvetica,
           docText e val (Some (x + 85, y)) (noOptions\<lparr>opt_width := Some 350\<rparr>)]))"

text \<open>
  The callback of \<^verbatim>\<open>article.tags.forEach\<close>. The local \<^verbatim>\<open>tagY\<close> of the enclosing
  method is threaded with the document.
\<close>

definition tagChip :: "env \<Rightarrow> pdfdoc \<times> rat \<Rightarrow> jsstring \<Rightarrow> pdfdoc \<times> rat" where
  "tagChip e = (\<lambda>(doc, tagY) tag.
     (let tagText = js ''#'' @ tag;
          tagWidth = widthOfString e (doc_font doc) (doc_fontSize doc) tagText + 16;
          (doc, tagY) =
            (if doc_x doc + tagWidth > pageWidth - defaultMargin
             then (doc\<lparr>doc_x := defaultMargin + 70\<rparr>, tagY + 20)
             else (doc, tagY));
          doc = chain doc [rect (doc_x doc) (tagY - 2) tagWidth 16,
                  fillAndStroke ''#dbeafe'' ''#3b82f6'', fillColor ''#1e40af'',
                  font Helvetica, fontSize 9,
                  docText e tagText (Some (doc_x doc + 8, tagY + 2)) noOptions];
          doc = doc\<lparr>doc_x := doc_x doc + tagWidth + 8\<rparr>
      in (doc, tagY)))"

text \<open>The block under \<^verbatim>\<open>// Tags\<close>, entered when the article has at least one tag.\<close>

definition addTags :: "env \<Rightarrow> jsstring list \<Rightarrow> pdfdoc \<Rightarrow> pdfdoc" where
  "addTags e tags doc =
     (let doc = chain doc [font HelveticaBold,
                  docText e (js ''Tags:'') (Some (defaultMargin + 20, doc_y doc)) noOptions];
          tagY = doc_y doc;
          (doc, tagY) = foldl (tagChip e) (doc, tagY) tags
      in doc\<lparr>doc_y := tagY + 20\<rparr>)"

definition addMetadata :: "env \<Rightarrow> render \<Rightarrow> render" where
  "addMetadata e s =
     (let article = r_article s; doc = r_doc s;
          rows = metadata e article;
          doc = chain doc [rect defaultMargin (doc_y doc) (pageWidth - 2 * defaultMargin) 120,
                  fillAndStroke ''#f8fafc'' ''#e2e8f0''];
          doc = moveDown e (1 / 2) doc;
          doc = chain doc [fontSize 10, font Helvetica, fillColor ''#4b5563''];
          doc = foldl (metadataRow e) doc (enumerate 0 rows);
          doc = doc\<lparr>doc_y := doc_y doc + of_nat (length rows) * 18 + 10\<rparr>;
          doc = (case art_tags article of
                   None \<Rightarrow> doc
                 | Some tags \<Rightarrow> if length tags > 0 then addTags e tags doc else doc);
          doc = moveDown e 1 doc
      in s\<lparr>r_doc := doc\<rparr>)"

subsection \<open>processBoldText\<close>

text \<open>The body of the \<^verbatim>\<open>for\<close> loop, at index \<open>i\<close>.\<close>

definition boldPart :: "env \<Rightarrow> jsstring list \<Rightarrow> pdfdoc \<Rightarrow> nat \<Rightarrow> pdfdoc" where
  "boldPart e parts doc i =
     (if i mod 2 = 0
      then chain doc [font Helvetica, fontSize 10, fillColor ''#374151'',
             docText e (parts ! i) None (noOptions\<lparr>opt_continued := i < length parts - 1\<rparr>)]
      else chain doc [font HelveticaBold,
             docText e (parts ! i) None (noOptions\<lparr>opt_continued := i < length parts - 1\<rparr>)])"

definition processBoldText :: "env \<Rightarrow> jsstring \<Rightarrow> pdfdoc \<Rightarrow> pdfdoc" where
  "processBoldText e t doc =
     (let parts = jsSplit (js ''**'') t;
          doc = foldl (boldPart e parts) doc [0 ..< length parts]
      in moveDown e (2 / 10) doc)"

subsection \<open>processMarkdownContent\<close>

text \<open>\<^verbatim>\<open>line.match(/^\d+\.\s/)\<close>: digits, at least one, then a full stop, then white space.\<close>

definition matchesNumbered :: "jsstring \<Rightarrow> bool" where
  "matchesNumbered line =
     (takeWhile isDigit line \<noteq> [] \<and>
      (case dropWhile isDigit line of
         c # w # rest \<Rightarrow> c = 0x2E \<and> isWhiteSpace w
       | _ \<Rightarrow> False))"

text \<open>
  The bullet the source puts before a list item. In the file it is the three code units
  U+00E2, U+20AC, U+00A2 and a space.
\<close>

definition bulletPrefix :: jsstring where
  "bulletPrefix = [0xE2, 0x20AC, 0xA2, 0x20]"

definition listOptions :: "rat \<Rightarrow> textOptions" where
  "listOptions ind = noOptions\<lparr>opt_indent := Some ind, opt_lineGap := Some 3,
     opt_align := Some AlignJustify\<rparr>"

text \<open>The callback of \<^verbatim>\<open>lines.forEach\<close>.\<close>

definition processLine :: "env \<Rightarrow> pdfdoc \<Rightarrow> jsstring \<Rightarrow> pdfdoc" where
  "processLine e doc raw =
     (let line = jsTrim raw in
      if line = [] then moveDown e (3 / 10) doc
      else if startsWith line (js ''### '') then
        moveDown e (3 / 10)
          (chain doc [fontSize 12, font HelveticaBold, fillColor ''#374151'',
             docText e (substringFrom line 4) None (noOptions\<lparr>opt_lineGap := Some 6\<rparr>)])
      else if startsWith line (js ''## '') then
        moveDown e (4 / 10)
          (chain doc [fontSize 14, font HelveticaBold, fillColor ''#1f2937'',
             docText e (substringFrom line 3) None (noOptions\<lparr>opt_lineGap := Some 6\<rparr>)])
      else if startsWith line (js ''# '') then
        moveDown e (5 / 10)
          (chain doc [fontSize 16, font HelveticaBold, fillColor ''#1f2937'',
             docText e (substringFrom line 2) None (noOptions\<lparr>opt_lineGap := Some 8\<rparr>)])
      else if startsWith line (js ''- '') \<or> startsWith line (js ''* '') then
        chain doc [fontSize 10, font Helvetica, fillColor ''#4b5563'',
          docText e (bulletPrefix @ substringFrom line 2) None (listOptions 20)]
      else if matchesNumbered line then
        chain doc [fontSize 10, font Helvetica, fillColor ''#4b5563'',
          docText e line None (listOptions 20)]
      else if startsWith line (js ''> '') then
        chain doc [fontSize 10, font HelveticaOblique, fillColor ''#6b7280'',
          docText e (substringFrom line 2) None (listOptions 30)]
      else if jsIncludes line (js ''**'') then processBoldText e line doc
      else
        moveDown e (2 / 10)
          (chain doc [fontSize 10, font Helvetica, fillColor ''#374151'',
             docText e line None
               (noOptions\<lparr>opt_align := Some AlignJustify, opt_lineGap := Some 4\<rparr>)]))"

definition processMarkdownContent :: "env \<Rightarrow> jsstring \<Rightarrow> pdfdoc \<Rightarrow> pdfdoc" where
  "processMarkdownContent e content doc =
     (let lines = jsSplit [0x0A] content in foldl (processLine e) doc lines)"

subsection \<open>addContent\<close>

definition addContent :: "env \<Rightarrow> render \<Rightarrow> render" where
  "addContent e s =
     (let article = r_article s; doc = r_doc s;
          doc = (case art_summary article of
                   None \<Rightarrow> doc
                 | Some summary \<Rightarrow>
                     if summary = [] then doc
                     else
                       (let doc = chain doc [fontSize 14, font HelveticaBold, fillColor ''#1f2937'',
                                    docText e (js ''Summary'') None
                                      (noOptions\<lparr>opt_align := Some AlignLeft\<rparr>)];
                            doc = moveDown e (3 / 10) doc;
                            doc = chain doc [rect defaultMargin (doc_y doc)
                                    (pageWidth - 2 * defaultMargin) 2, fill ''#fbbf24''];
                            doc = moveDown e (5 / 10) doc;
                            doc = chain doc [fontSize 11, font HelveticaOblique, fillColor ''#374151'',
                                    docText e summary None
                                      (noOptions\<lparr>opt_align := Some AlignJustify,
                                         opt_lineGap := Some 4\<rparr>)]
                        in moveDown e 1 doc));
          doc = chain doc [fontSize 14, font HelveticaBold, fillColor ''#1f2937'',
                  docText e (js ''Content'') None (noOptions\<lparr>opt_align := Some AlignLeft\<rparr>)];
          doc = moveDown e (3 / 10) doc;
          doc = chain doc [rect defaultMargin (doc_y doc) (pageWidth - 2 * defaultMargin) 2,
                  fill ''#3b82f6''];
          doc = moveDown e (8 / 10) doc;
          doc = processMarkdownContent e (art_content article) doc
      in s\<lparr>r_doc := doc\<rparr>)"

subsection \<open>addFooter\<close>

text \<open>The text of the page stamp, \<^verbatim>\<open>`Page ${i + 1} of ${pages.count}`\<close>.\<close>

definition pageStamp :: "nat \<Rightarrow> nat \<Rightarrow> jsstring" where
  "pageStamp i count = js ''Page '' @ showNat (i + 1) @ js '' of '' @ showNat count"

text \<open>What the loop draws on the page it has switched to.\<close>

definition footerOn :: "env \<Rightarrow> nat \<Rightarrow> nat \<Rightarrow> pdfdoc \<Rightarrow> pdfdoc" where
  "footerOn e count i doc =
     (let doc = chain doc [strokeColor ''#e5e7eb'', lineWidth 1,
                  moveTo defaultMargin (pageHeight - 60),
                  lineTo (pageWidth - defaultMargin) (pageHeight - 60), stroke]
      in chain doc [fontSize 8, font Helvetica, fillColor ''#9ca3af'',
           docText e (js ''Generated by ArticleHub | '' @ formatShort e (now e))
             (Some (defaultMargin, pageHeight - 45)) (noOptions\<lparr>opt_align := Some AlignLeft\<rparr>),
           docText e (pageStamp i count)
             (Some (defaultMargin, pageHeight - 45)) (noOptions\<lparr>opt_align := Some AlignRight\<rparr>)])"

text \<open>
  The loop \<^verbatim>\<open>for (let i = 0; i < pages.count; i++)\<close>, from index \<open>i\<close> on. The count was
  read once, before the loop.
\<close>

function footerLoop :: "env \<Rightarrow> nat \<Rightarrow> nat \<Rightarrow> render \<Rightarrow> completion" where
  "footerLoop e count i s =
     (if i < count
      then (case switchToPage i (r_doc s) of
              Inl err \<Rightarrow> Threw err s
            | Inr doc \<Rightarrow> footerLoop e count (i + 1) (s\<lparr>r_doc := footerOn e count i doc\<rparr>))
      else Done s)"
  by pat_completeness auto
termination
  by (relation "measure (\<lambda>(e, count, i, s). count - i)") auto

declare footerLoop.simps [simp del]

definition addFooter :: "env \<Rightarrow> render \<Rightarrow> completion" where
  "addFooter e s =
     (let (start, count) = bufferedPageRange (r_doc s) in footerLoop e count 0 s)"

subsection \<open>generateArticlePDF\<close>

text \<open>
  The finished document, as the \<^verbatim>\<open>'data'\<close> chunks deliver it: its information
  dictionary, its number of pages and what was drawn on them.
\<close>

record pdfBuffer =
  buf_info :: docInfo
  buf_pages :: nat
  buf_ops :: "(nat \<times> drawOp) list"

text \<open>\<^verbatim>\<open>doc.end()\<close> flushes the pages that are still buffered and finishes the file.\<close>

definition docEnd :: "pdfdoc \<Rightarrow> pdfBuffer" where
  "docEnd d =
     (let d = flushPages d
      in \<lparr>buf_info = doc_info d, buf_pages = doc_pageBufferStart d, buf_ops = doc_ops d\<rparr>)"

text \<open>
  How the promise ends. The listener of \<^verbatim>\<open>'end'\<close> runs when the stream has been read,
  after the executor (and its \<^verbatim>\<open>try\<close> block) has returned: an exception thrown in the
  listener is not caught there, nothing calls \<^verbatim>\<open>reject\<close>, and the promise stays
  pending. That is \<open>Unsettled\<close>, with the exception.
\<close>

datatype outcome =
    Resolved pdfBuffer "jsstring option"
  | Rejected error
  | Unsettled error

text \<open>
  The result of a call: how the promise ends, the article object after the call, and the
  file the call wrote, if any.
\<close>

record callResult =
  res_outcome :: outcome
  res_article :: article
  res_written :: "(jsstring \<times> pdfBuffer) option"

text \<open>The \<^verbatim>\<open>info\<close> option of the constructor call.\<close>

definition articleInfo :: "env \<Rightarrow> article \<Rightarrow> docInfo" where
  "articleInfo e article =
     \<lparr>info_Title = art_title article,
      info_Author = orElse (Option.bind (art_createdBy article) user_name) (js ''Unknown Author''),
      info_Subject = js ''Article Export from ArticleHub'',
      info_Creator = js ''ArticleHub MERN Application'',
      info_CreationDate = now e\<rparr>"

text \<open>
  The listener of \<^verbatim>\<open>'end'\<close>: with a truthy \<^verbatim>\<open>outputPath\<close> it writes the file, which
  may throw, and then resolves; otherwise it resolves at once.
\<close>

definition onEnd :: "env \<Rightarrow> jsstring option \<Rightarrow> render \<Rightarrow> pdfBuffer \<Rightarrow> callResult" where
  "onEnd e outputPath s pdfBuffer =
     (case outputPath of
        None \<Rightarrow>
          \<lparr>res_outcome = Resolved pdfBuffer None, res_article = r_article s, res_written = None\<rparr>
      | Some p \<Rightarrow>
          if p = [] then
            \<lparr>res_outcome = Resolved pdfBuffer None, res_article = r_article s, res_written = None\<rparr>
          else if writable e p then
            \<lparr>res_outcome = Resolved pdfBuffer (Some p), res_article = r_article s,
              res_written = Some (p, pdfBuffer)\<rparr>
          else
            \<lparr>res_outcome = Unsettled (WriteFileFailed p), res_article = r_article s,
              res_written = None\<rparr>)"

text \<open>
  The executor of the promise. Inside its \<^verbatim>\<open>try\<close> block it builds the document and
  calls the four methods and \<^verbatim>\<open>doc.end()\<close>; what throws there is caught and rejects
  the promise.
\<close>

definition generateArticlePDF :: "env \<Rightarrow> article \<Rightarrow> jsstring option \<Rightarrow> callResult" where
  "generateArticlePDF e article outputPath =
     (let doc = newPDFDocument defaultMargin False (articleInfo e article);
          s = \<lparr>r_article = article, r_doc = doc\<rparr>;
          s = addHeader e s;
          s = addMetadata e s;
          s = addContent e s
      in case addFooter e s of
           Threw err s \<Rightarrow>
             \<lparr>res_outcome = Rejected err, res_article = r_article s, res_written = None\<rparr>
         | Done s \<Rightarrow> onEnd e outputPath s (docEnd (r_doc s)))"

section \<open>Notions the properties are stated with\<close>

text \<open>
  The document after the three methods that lay the article out, before the footers are
  stamped.
\<close>

definition layoutPass :: "env \<Rightarrow> article \<Rightarrow> render" where
  "layoutPass e article =
     addContent e (addMetadata e (addHeader e
       \<lparr>r_article = article, r_doc = newPDFDocument defaultMargin False (articleInfo e article)\<rparr>))"

text \<open>The runs of text among drawing operations, in the order they were drawn.\<close>

fun runsOf :: "(nat \<times> drawOp) list \<Rightarrow> textRun list" where
  "runsOf [] = []"
| "runsOf ((p, Text r) # ops) = r # runsOf ops"
| "runsOf ((p, Rect a b c d) # ops) = runsOf ops"
| "runsOf ((p, MoveTo a b) # ops) = runsOf ops"
| "runsOf ((p, LineTo a b) # ops) = runsOf ops"
| "runsOf ((p, Stroke c w) # ops) = runsOf ops"
| "runsOf ((p, Fill c) # ops) = runsOf ops"
| "runsOf ((p, FillAndStroke c d) # ops) = runsOf ops"

text \<open>
  What the document can become by calls of its methods: pen and style are set, something
  is drawn, or text is laid out.
\<close>

inductive steps :: "env \<Rightarrow> pdfdoc \<Rightarrow> pdfdoc \<Rightarrow> bool" for e :: env and d :: pdfdoc where
  steps_refl: "steps e d d"
| steps_pen: "steps e d d' \<Longrightarrow> steps e d (d'\<lparr>doc_x := px, doc_y := py\<rparr>)"
| steps_style: "steps e d d' \<Longrightarrow>
    steps e d (d'\<lparr>doc_font := f, doc_fontSize := z, doc_fillColor := c,
      doc_strokeColor := sc, doc_lineWidth := w\<rparr>)"
| steps_draw: "steps e d d' \<Longrightarrow> steps e d (draw op d')"
| steps_text: "steps e d d' \<Longrightarrow> steps e d (docText e s pos opts d')"

text \<open>
  Two layouts for concrete runs. In \<open>lineEnv h\<close> every run of text takes one line of
  height \<open>h\<close> and no page is ever added; in \<open>pageEnv\<close> every run of text starts a page.
  Strings are measured at half their size per code unit.
\<close>

definition lineEnv :: "rat \<Rightarrow> env" where
  "lineEnv h =
     \<lparr>widthOfString = (\<lambda>f z s. z * of_nat (length s) / 2),
      currentLineHeight = (\<lambda>f z. h),
      layoutText = (\<lambda>d s opts. (0, doc_y d + h)),
      formatLong = (\<lambda>t. js ''January 1, 2024''),
      formatShort = (\<lambda>t. js ''1/1/2024''),
      now = 0,
      writable = (\<lambda>p. startsWith p (js ''/tmp/''))\<rparr>"

definition pageEnv :: env where
  "pageEnv = (lineEnv 12)\<lparr>layoutText := (\<lambda>d s opts. (1, doc_margin d + 12))\<rparr>"

subsection \<open>The rule set of the specification\<close>

datatype lineKind =
    EmptyLine | SubHeading | Heading | TopHeading | BulletItem | NumberedItem | Blockquote
  | BoldLine | Paragraph

text \<open>
  The sixth rule in the words of the specification: one or more digits, a period, then
  white space, at the start of the line.
\<close>

definition specNumbered :: "jsstring \<Rightarrow> bool" where
  "specNumbered l =
     (\<exists>n \<in> {1 ..< length l}. list_all isDigit (take n l) \<and>
        (case drop n l of c # w # rest \<Rightarrow> c = 0x2E \<and> isWhiteSpace w | _ \<Rightarrow> False))"

text \<open>The nine rules in the order of the specification, each kind with its test.\<close>

definition specRules :: "(lineKind \<times> (jsstring \<Rightarrow> bool)) list" where
  "specRules =
     [(EmptyLine, \<lambda>l. l = []),
      (SubHeading, \<lambda>l. startsWith l (js ''### '')),
      (Heading, \<lambda>l. startsWith l (js ''## '')),
      (TopHeading, \<lambda>l. startsWith l (js ''# '')),
      (BulletItem, \<lambda>l. startsWith l (js ''- '') \<or> startsWith l (js ''* '')),
      (NumberedItem, specNumbered),
      (Blockquote, \<lambda>l. startsWith l (js ''> '')),
      (BoldLine, \<lambda>l. jsIncludes l (js ''**'')),
      (Paragraph, \<lambda>l. True)]"

text \<open>The first rule that matches wins.\<close>

definition specClassify :: "jsstring \<Rightarrow> lineKind" where
  "specClassify l =
     (case find (\<lambda>(k, test). test l) specRules of Some (k, test) \<Rightarrow> k | None \<Rightarrow> Paragraph)"

text \<open>What \<^verbatim>\<open>processMarkdownContent\<close> draws for a trimmed line of each kind.\<close>

fun lineStyle :: "env \<Rightarrow> lineKind \<Rightarrow> jsstring \<Rightarrow> pdfdoc \<Rightarrow> pdfdoc" where
  "lineStyle e EmptyLine line doc = moveDown e (3 / 10) doc"
| "lineStyle e SubHeading line doc =
     moveDown e (3 / 10)
       (chain doc [fontSize 12, font HelveticaBold, fillColor ''#374151'',
          docText e (substringFrom line 4) None (noOptions\<lparr>opt_lineGap := Some 6\<rparr>)])"
| "lineStyle e Heading line doc =
     moveDown e (4 / 10)
       (chain doc [fontSize 14, font HelveticaBold, fillColor ''#1f2937'',
          docText e (substringFrom line 3) None (noOptions\<lparr>opt_lineGap := Some 6\<rparr>)])"
| "lineStyle e TopHeading line doc =
     moveDown e (5 / 10)
       (chain doc [fontSize 16, font HelveticaBold, fillColor ''#1f2937'',
          docText e (substringFrom line 2) None (noOptions\<lparr>opt_lineGap := Some 8\<rparr>)])"
| "lineStyle e BulletItem line doc =
     chain doc [fontSize 10, font Helvetica, fillColor ''#4b5563'',
       docText e (bulletPrefix @ substringFrom line 2) None (listOptions 20)]"
| "lineStyle e NumberedItem line doc =
     chain doc [fontSize 10, font Helvetica, fillColor ''#4b5563'',
       docText e line None (listOptions 20)]"
| "lineStyle e Blockquote line doc =
     chain doc [fontSize 10, font HelveticaOblique, fillColor ''#6b7280'',
       docText e (substringFrom line 2) None (listOptions 30)]"
| "lineStyle e BoldLine line doc = processBoldText e line doc"
| "lineStyle e Paragraph line doc =
     moveDown e (2 / 10)
       (chain doc [fontSize 10, font Helvetica, fillColor ''#374151'',
          docText e line None
            (noOptions\<lparr>opt_align := Some AlignJustify, opt_lineGap := Some 4\<rparr>)])"

text \<open>\<^verbatim>\<open>parts.join(sep)\<close>, the inverse of \<^verbatim>\<open>split\<close>.\<close>

fun jsJoin :: "jsstring \<Rightarrow> jsstring list \<Rightarrow> jsstring" where
  "jsJoin sep [] = []"
| "jsJoin sep [p] = p"
| "jsJoin sep (p # q # ps) = p @ sep @ jsJoin sep (q # ps)"

text \<open>What the bold splitter decides for a run: its text, its face, and whether it is continued.\<close>

definition boldView :: "textRun \<Rightarrow> jsstring \<times> font \<times> bool" where
  "boldView r = (run_text r, run_font r, opt_continued (run_options r))"

subsection \<open>Metadata rows and tag chips\<close>

text \<open>The vertical positions of the labels of the metadata rows: the runs 80 wide.\<close>

definition labelYs :: "(nat \<times> drawOp) list \<Rightarrow> rat list" where
  "labelYs ops = map run_y (filter (\<lambda>r. opt_width (run_options r) = Some 80) (runsOf ops))"





text \<open>The article of the end-to-end scenario of the specification, with two tags.\<close>

definition sampleArticle :: article where
  "sampleArticle =
     \<lparr>art_title = js ''Hello World Article'',
      art_createdBy = Some \<lparr>user_name = Some (js ''Ada Lovelace''), user_email = None\<rparr>,
      art_createdAt = 0, art_updatedAt = 0, art_viewCount = Some 3,
      art_tags = Some [js ''pdf'', js ''export''], art_summary = None,
      art_content = js ''# Heading'' @ [0x0A] @ js ''plain **bold** plain''\<rparr>"

text \<open>
  A layout for concrete runs that treats the last run of a line as PDFKit's line wrapper
  does: a run that is continued, or that is empty, leaves the pen on its line; any other
  run takes one line of height \<open>h\<close>. No page is added.
\<close>

definition penEnv :: "rat \<Rightarrow> env" where
  "penEnv h = (lineEnv h)\<lparr>layoutText :=
     (\<lambda>d s opts. (0, if opt_continued opts \<or> s = [] then doc_y d else doc_y d + h))\<rparr>"




text \<open>The objects as a statement leaves them, however it ends.\<close>

fun stateOf :: "completion \<Rightarrow> render" where
  "stateOf (Done s) = s"
| "stateOf (Threw err s) = s"

section \<open>Filename derivation: properties\<close>

lemma collapse_all: "list_all P cs \<Longrightarrow> P underscore \<Longrightarrow> list_all P (collapseUnderscores cs)"
proof (induction cs rule: collapseUnderscores.induct)
  case (1 c d cs)
  have "set (dropWhile (\<lambda>e. e = underscore) cs) \<subseteq> set cs"
    by (auto dest: set_dropWhileD)
  with 1 show ?case by (auto simp: list_all_iff)
qed simp_all

lemma collapse_Nil: "(collapseUnderscores cs = []) = (cs = [])"
  by (induction cs rule: collapseUnderscores.induct) auto

lemma hd_collapse: "hd (collapseUnderscores cs) = hd cs"
  by (induction cs rule: collapseUnderscores.induct) auto

lemma noDouble_Cons:
  "noDoubleUnderscore (c # cs) =
     ((cs = [] \<or> \<not> (c = underscore \<and> hd cs = underscore)) \<and> noDoubleUnderscore cs)"
  by (cases cs) auto

lemma noDouble_collapse: "noDoubleUnderscore (collapseUnderscores cs)"
proof (induction cs rule: collapseUnderscores.induct)
  case (1 c d cs)
  show ?case
  proof (cases "c = underscore \<and> d = underscore")
    case True
    let ?r = "dropWhile (\<lambda>e. e = underscore) cs"
    have "?r = [] \<or> hd ?r \<noteq> underscore"
      using hd_dropWhile [of "\<lambda>e. e = underscore" cs] by blast
    with True 1 show ?thesis
      by (simp add: noDouble_Cons collapse_Nil hd_collapse)
  next
    case False
    with 1 show ?thesis
      by (auto simp: noDouble_Cons collapse_Nil hd_collapse)
  qed
qed simp_all

lemma noDouble_take: "noDoubleUnderscore cs \<Longrightarrow> noDoubleUnderscore (take n cs)"
proof (induction cs arbitrary: n)
  case Nil
  then show ?case by simp
next
  case (Cons c cs)
  show ?case
  proof (cases n)
    case 0
    then show ?thesis by simp
  next
    case (Suc m)
    have "noDoubleUnderscore (take m cs)"
      using Cons by (simp add: noDouble_Cons)
    moreover have "take m cs = [] \<or> \<not> (c = underscore \<and> hd (take m cs) = underscore)"
      using Cons.prems by (cases m; cases cs) (auto simp: noDouble_Cons)
    ultimately show ?thesis
      using Suc by (simp add: noDouble_Cons)
  qed
qed

lemma length_js: "length (js s) = length s" by (simp add: js_def)

text \<open>
  Claim C3, as the code has it. For every title and date \<^verbatim>\<open>generateFilename\<close> returns
  \<^verbatim>\<open>article_\<close>, the sanitised title, an underscore, the date and \<^verbatim>\<open>.pdf\<close>. The
  sanitised title is the title with every code unit outside \<^verbatim>\<open>[a-zA-Z0-9]\<close> replaced
  by an underscore, runs of underscores collapsed and the result cut to 50 code units: it
  holds letters, digits and underscores only, has no two adjacent underscores and is at
  most 50 long. The name is not empty, its length is 13 plus the lengths of the sanitised
  title and of the date (so at most 63 plus the length of the date), and it ends in
  \<^verbatim>\<open>.pdf\<close>. The function is total and has no state, so it cannot throw and the same
  title and date give the same name.
\<close>

theorem generateFilename_shape:
  "generateFilename a date = js ''article_'' @ sanitizeTitle (art_title a) @ js ''_'' @ date @ js ''.pdf''
   \<and> sanitizeTitle (art_title a) = take 50 (collapseUnderscores (map (\<lambda>c. if isAlnum c then c else underscore) (art_title a)))
   \<and> list_all isSafeChar (sanitizeTitle (art_title a))
   \<and> noDoubleUnderscore (sanitizeTitle (art_title a))
   \<and> length (sanitizeTitle (art_title a)) \<le> 50
   \<and> generateFilename a date \<noteq> []
   \<and> length (generateFilename a date) = 13 + length (sanitizeTitle (art_title a)) + length date
   \<and> length (generateFilename a date) \<le> 63 + length date
   \<and> drop (length (generateFilename a date) - 4) (generateFilename a date) = js ''.pdf''"
proof -
  let ?t = "sanitizeTitle (art_title a)"
  have safe: "list_all isSafeChar ?t"
  proof -
    have "list_all isSafeChar (replaceNonAlnum (art_title a))"
      by (auto simp: replaceNonAlnum_def list_all_iff isSafeChar_def)
    then have "list_all isSafeChar (collapseUnderscores (replaceNonAlnum (art_title a)))"
      by (rule collapse_all) (simp add: isSafeChar_def)
    then show ?thesis
      by (auto simp: sanitizeTitle_def substringTo_def list_all_iff dest: in_set_takeD)
  qed
  have nd: "noDoubleUnderscore ?t"
    by (simp add: sanitizeTitle_def substringTo_def noDouble_take noDouble_collapse)
  have len: "length ?t \<le> 50"
    by (simp add: sanitizeTitle_def substringTo_def)
  have total: "length (generateFilename a date) = 13 + length ?t + length date"
    by (simp add: generateFilename_def length_js)
  have bound: "length (generateFilename a date) \<le> 63 + length date"
    using total len by simp
  have ne: "generateFilename a date \<noteq> []"
    using total by auto
  have ext: "drop (length (generateFilename a date) - 4) (generateFilename a date) = js ''.pdf''"
    by (simp add: generateFilename_def length_js)
  have shape: "generateFilename a date
      = js ''article_'' @ ?t @ js ''_'' @ date @ js ''.pdf''"
    by (simp add: generateFilename_def)
  have part: "?t = take 50 (collapseUnderscores
      (map (\<lambda>c. if isAlnum c then c else underscore) (art_title a)))"
    by (simp add: sanitizeTitle_def substringTo_def replaceNonAlnum_def)
  show ?thesis
    by (intro conjI shape part safe nd len ne total bound ext)
qed

text \<open>
  Claim C3 as the specification words it fails twice. The separator that follows the
  sanitised title makes two adjacent underscores when the title ends in a character that
  was replaced (title \<^verbatim>\<open>a!\<close>), and the prefix \<^verbatim>\<open>article_\<close> and the separator add nine
  code units to the bound of 50 plus the suffix (a title of fifty letters).
\<close>

theorem generateFilename_counterexample:
  "\<not> noDoubleUnderscore (generateFilename (titled (js ''a!'')) (js ''2024-01-01''))
   \<and> length (generateFilename (titled (replicate 50 0x61)) (js ''2024-01-01''))
       > 50 + length (js ''_2024-01-01.pdf'')"
  by code_simp

section \<open>The article is only read\<close>

lemma addHeader_article: "r_article (addHeader e s) = r_article s"
  by (simp add: addHeader_def Let_def)

lemma addMetadata_article: "r_article (addMetadata e s) = r_article s"
  by (simp add: addMetadata_def Let_def)

lemma addContent_article: "r_article (addContent e s) = r_article s"
  by (simp add: addContent_def Let_def)

lemma footerLoop_throw:
  "i < count \<Longrightarrow> switchToPage i (r_doc s) = Inl err \<Longrightarrow> footerLoop e count i s = Threw err s"
  by (subst footerLoop.simps) simp

lemma footerLoop_next:
  "i < count \<Longrightarrow> switchToPage i (r_doc s) = Inr doc \<Longrightarrow>
   footerLoop e count i s = footerLoop e count (i + 1) (s\<lparr>r_doc := footerOn e count i doc\<rparr>)"
  by (subst footerLoop.simps) simp

lemma footerLoop_done: "\<not> i < count \<Longrightarrow> footerLoop e count i s = Done s"
  by (subst footerLoop.simps) simp

lemma footerLoop_article: "r_article (stateOf (footerLoop e count i s)) = r_article s"
proof (induction e count i s rule: footerLoop.induct)
  case (1 e count i s)
  show ?case
  proof (cases "i < count")
    case False
    then show ?thesis by (simp add: footerLoop_done)
  next
    case True
    show ?thesis
    proof (cases "switchToPage i (r_doc s)")
      case (Inl err)
      with True show ?thesis by (simp add: footerLoop_throw)
    next
      case (Inr doc)
      with True 1 show ?thesis by (simp add: footerLoop_next)
    qed
  qed
qed

lemma addFooter_article: "r_article (stateOf (addFooter e s)) = r_article s"
  by (simp add: addFooter_def bufferedPageRange_def footerLoop_article)

lemma onEnd_article: "res_article (onEnd e out s b) = r_article s"
  by (simp add: onEnd_def split: option.split)

text \<open>
  Claim C9. \<^verbatim>\<open>generateArticlePDF\<close> leaves the article as it was given, whether the
  promise resolves, rejects or stays pending, and so does each of the four methods it
  calls: every field of the record is the same after the call.
\<close>

theorem generateArticlePDF_article_unchanged:
  "res_article (generateArticlePDF e article outputPath) = article
   \<and> r_article (addHeader e s) = r_article s
   \<and> r_article (addMetadata e s) = r_article s
   \<and> r_article (addContent e s) = r_article s
   \<and> r_article (stateOf (addFooter e s)) = r_article s"
proof -
  let ?s = "addContent e (addMetadata e (addHeader e
    \<lparr>r_article = article, r_doc = newPDFDocument defaultMargin False (articleInfo e article)\<rparr>))"
  have art: "r_article ?s = article"
    by (simp add: addContent_article addMetadata_article addHeader_article)
  have "r_article (stateOf (addFooter e ?s)) = article"
    using art by (simp add: addFooter_article)
  then have "res_article (generateArticlePDF e article outputPath) = article"
    by (cases "addFooter e ?s") (simp_all add: generateArticlePDF_def Let_def onEnd_article)
  then show ?thesis
    by (simp add: addHeader_article addMetadata_article addContent_article addFooter_article)
qed

section \<open>Footers and the page buffer\<close>

lemma addPage_unbuffered:
  "\<not> doc_bufferPages d \<Longrightarrow>
   addPage d = d\<lparr>doc_pageBufferStart := doc_pageBufferStart d + doc_pageBufferLength d,
     doc_pageBufferLength := 1, doc_page := doc_pageBufferStart d + doc_pageBufferLength d,
     doc_x := doc_margin d, doc_y := doc_margin d\<rparr>"
  by (simp add: addPage_def flushPages_def Let_def)

lemma addPages_unbuffered:
  "\<not> doc_bufferPages d \<Longrightarrow> doc_pageBufferLength d = 1 \<Longrightarrow>
   \<not> doc_bufferPages ((addPage ^^ n) d)
   \<and> doc_pageBufferLength ((addPage ^^ n) d) = 1
   \<and> doc_pageBufferStart ((addPage ^^ n) d) = doc_pageBufferStart d + n"
  by (induction n) (simp_all add: addPage_unbuffered)

text \<open>
  Claim C1 fails on the code. The document is constructed without \<^verbatim>\<open>bufferPages\<close>,
  so each new page flushes the ones before it and \<^verbatim>\<open>bufferedPageRange()\<close> covers the
  last page only. After \<open>n + 1\<close> page breaks the document has \<open>n + 2\<close> pages, the range
  is \<open>{start: n + 1, count: 1}\<close>, and the first round of the loop of \<^verbatim>\<open>addFooter\<close>
  calls \<^verbatim>\<open>switchToPage(0)\<close>, which throws: no page is stamped.
\<close>

theorem addFooter_throws_on_second_page:
  "addFooter e \<lparr>r_article = a, r_doc = (addPage ^^ Suc n) (newPDFDocument m False info)\<rparr>
   = Threw (SwitchToPageOutOfBounds 0 (Suc n) 1)
       \<lparr>r_article = a, r_doc = (addPage ^^ Suc n) (newPDFDocument m False info)\<rparr>
   \<and> pageCount ((addPage ^^ Suc n) (newPDFDocument m False info)) = Suc (Suc n)
   \<and> bufferedPageRange ((addPage ^^ Suc n) (newPDFDocument m False info)) = (Suc n, 1)"
proof -
  let ?d = "(addPage ^^ Suc n) (newPDFDocument m False info)"
  have new: "\<not> doc_bufferPages (newPDFDocument m False info)"
    "doc_pageBufferLength (newPDFDocument m False info) = 1"
    "doc_pageBufferStart (newPDFDocument m False info) = 0"
    by (simp_all add: newPDFDocument_def)
  have len: "doc_pageBufferLength ?d = 1" and start: "doc_pageBufferStart ?d = Suc n"
    using addPages_unbuffered [OF new(1) new(2), of "Suc n"] new(3) by simp_all
  have "switchToPage 0 ?d = Inl (SwitchToPageOutOfBounds 0 (Suc n) 1)"
    unfolding switchToPage_def len start by simp
  then have "footerLoop e 1 0 \<lparr>r_article = a, r_doc = ?d\<rparr>
      = Threw (SwitchToPageOutOfBounds 0 (Suc n) 1) \<lparr>r_article = a, r_doc = ?d\<rparr>"
    by (intro footerLoop_throw) simp_all
  then show ?thesis
    using len start by (simp add: addFooter_def bufferedPageRange_def pageCount_def)
qed

section \<open>What the methods do to the document\<close>

lemma steps_trans: "steps e d' d'' \<Longrightarrow> steps e d d' \<Longrightarrow> steps e d d''"
  by (induction rule: steps.induct) (auto intro: steps.intros)

lemma steps_x:
  assumes "steps e d d'"
  shows "steps e d (d'\<lparr>doc_x := px\<rparr>)"
  using steps_pen [OF assms, where px = px and py = "doc_y d'"] by simp

lemma steps_y:
  assumes "steps e d d'"
  shows "steps e d (d'\<lparr>doc_y := py\<rparr>)"
  using steps_pen [OF assms, where px = "doc_x d'" and py = py] by simp

lemma steps_fontSize:
  assumes "steps e d d'"
  shows "steps e d (fontSize z d')"
  using steps_style [OF assms, where f = "doc_font d'" and z = z and c = "doc_fillColor d'" and sc = "doc_strokeColor d'" and w = "doc_lineWidth d'"]
  by (simp add: fontSize_def)

lemma steps_font:
  assumes "steps e d d'"
  shows "steps e d (font f d')"
  using steps_style [OF assms, where f = f and z = "doc_fontSize d'" and c = "doc_fillColor d'" and sc = "doc_strokeColor d'" and w = "doc_lineWidth d'"]
  by (simp add: font_def)

lemma steps_fillColor:
  assumes "steps e d d'"
  shows "steps e d (fillColor c d')"
  using steps_style [OF assms, where f = "doc_font d'" and z = "doc_fontSize d'" and c = c and sc = "doc_strokeColor d'" and w = "doc_lineWidth d'"]
  by (simp add: fillColor_def)

lemma steps_strokeColor:
  assumes "steps e d d'"
  shows "steps e d (strokeColor c d')"
  using steps_style [OF assms, where f = "doc_font d'" and z = "doc_fontSize d'" and c = "doc_fillColor d'" and sc = c and w = "doc_lineWidth d'"]
  by (simp add: strokeColor_def)

lemma steps_lineWidth:
  assumes "steps e d d'"
  shows "steps e d (lineWidth w d')"
  using steps_style [OF assms, where f = "doc_font d'" and z = "doc_fontSize d'" and c = "doc_fillColor d'" and sc = "doc_strokeColor d'" and w = w]
  by (simp add: lineWidth_def)

lemma steps_moveTo: "steps e d d' \<Longrightarrow> steps e d (moveTo px py d')"
  by (simp add: moveTo_def steps_draw)

lemma steps_lineTo: "steps e d d' \<Longrightarrow> steps e d (lineTo px py d')"
  by (simp add: lineTo_def steps_draw)

lemma steps_stroke: "steps e d d' \<Longrightarrow> steps e d (stroke d')"
  by (simp add: stroke_def steps_draw)

lemma steps_rect: "steps e d d' \<Longrightarrow> steps e d (rect px py w h d')"
  by (simp add: rect_def steps_draw)

lemma steps_fill: "steps e d d' \<Longrightarrow> steps e d (fill c d')"
  by (simp add: fill_def steps_draw steps_fillColor)

lemma steps_fillAndStroke: "steps e d d' \<Longrightarrow> steps e d (fillAndStroke f s d')"
  by (simp add: fillAndStroke_def steps_draw steps_fillColor steps_strokeColor)

lemma steps_moveDown: "steps e d d' \<Longrightarrow> steps e d (moveDown e n d')"
  by (simp add: moveDown_def steps_y)

lemmas steps_calls = steps_fontSize steps_font steps_fillColor steps_strokeColor steps_lineWidth
  steps_moveTo steps_lineTo steps_stroke steps_rect steps_fill steps_fillAndStroke steps_moveDown
  steps_text steps_x steps_y

lemma steps_foldl:
  assumes "\<And>d' x. steps e d d' \<Longrightarrow> steps e d (f d' x)"
  shows "steps e d d0 \<Longrightarrow> steps e d (foldl f d0 xs)"
  by (induction xs arbitrary: d0) (simp_all add: assms)

lemma steps_addHeader: "steps e d (r_doc s) \<Longrightarrow> steps e d (r_doc (addHeader e s))"
  by (simp add: addHeader_def Let_def chain_def steps_calls)

lemma steps_metadataRow: "steps e d d' \<Longrightarrow> steps e d (metadataRow e d' row)"
  by (cases row) (simp add: metadataRow_def Let_def chain_def steps_calls)

lemma steps_tagChip: "steps e d (fst p) \<Longrightarrow> steps e d (fst (tagChip e p tag))"
  by (cases p) (simp add: tagChip_def Let_def chain_def steps_calls)

lemma steps_tagChips: "steps e d (fst p) \<Longrightarrow> steps e d (fst (foldl (tagChip e) p tags))"
  by (induction tags arbitrary: p) (simp_all add: steps_tagChip)

lemma steps_addTags: "steps e d d' \<Longrightarrow> steps e d (addTags e tags d')"
  by (simp add: addTags_def Let_def chain_def split_beta steps_y steps_tagChips steps_calls)

lemma steps_addMetadata: "steps e d (r_doc s) \<Longrightarrow> steps e d (r_doc (addMetadata e s))"
  by (simp add: addMetadata_def Let_def chain_def steps_calls steps_addTags steps_foldl
      steps_metadataRow split: option.split)

lemma steps_boldPart: "steps e d d' \<Longrightarrow> steps e d (boldPart e parts d' i)"
  by (simp add: boldPart_def chain_def steps_calls)

lemma steps_processBoldText: "steps e d d' \<Longrightarrow> steps e d (processBoldText e t d')"
  by (simp add: processBoldText_def Let_def steps_calls steps_foldl steps_boldPart)

lemma steps_processLine: "steps e d d' \<Longrightarrow> steps e d (processLine e d' raw)"
  by (simp add: processLine_def Let_def chain_def steps_calls steps_processBoldText)

lemma steps_processMarkdownContent:
  "steps e d d' \<Longrightarrow> steps e d (processMarkdownContent e content d')"
  by (simp add: processMarkdownContent_def Let_def steps_foldl steps_processLine)

lemma steps_addContent: "steps e d (r_doc s) \<Longrightarrow> steps e d (r_doc (addContent e s))"
  by (simp add: addContent_def Let_def chain_def steps_calls steps_processMarkdownContent
      split: option.split)

lemma steps_footerOn: "steps e d d' \<Longrightarrow> steps e d (footerOn e count i d')"
  by (simp add: footerOn_def Let_def chain_def steps_calls)

lemma steps_layoutPass:
  "steps e (newPDFDocument defaultMargin False (articleInfo e a)) (r_doc (layoutPass e a))"
  by (simp add: layoutPass_def steps_addContent steps_addMetadata steps_addHeader steps_refl)


section \<open>Pages during the layout\<close>

lemma penAt_paging [simp]:
  "doc_bufferPages (penAt pos d) = doc_bufferPages d"
  "doc_pageBufferStart (penAt pos d) = doc_pageBufferStart d"
  "doc_pageBufferLength (penAt pos d) = doc_pageBufferLength d"
  "doc_page (penAt pos d) = doc_page d"
  by (simp_all add: penAt_def split: option.split)

lemma docText_paging:
  "doc_bufferPages (docText e s pos opts d)
     = doc_bufferPages ((addPage ^^ fst (layoutText e (penAt pos d) s opts)) (penAt pos d))"
  "doc_pageBufferStart (docText e s pos opts d)
     = doc_pageBufferStart ((addPage ^^ fst (layoutText e (penAt pos d) s opts)) (penAt pos d))"
  "doc_pageBufferLength (docText e s pos opts d)
     = doc_pageBufferLength ((addPage ^^ fst (layoutText e (penAt pos d) s opts)) (penAt pos d))"
  "doc_page (docText e s pos opts d)
     = doc_page ((addPage ^^ fst (layoutText e (penAt pos d) s opts)) (penAt pos d))"
  by (simp_all add: docText_def Let_def split_beta draw_def)

lemma steps_unbuffered:
  assumes "steps e d d'" and "\<not> doc_bufferPages d" and "doc_pageBufferLength d = 1"
  shows "\<not> doc_bufferPages d' \<and> doc_pageBufferLength d' = 1
    \<and> doc_pageBufferStart d \<le> doc_pageBufferStart d'"
  using assms
proof (induction rule: steps.induct)
  case (steps_text d' s pos opts)
  then have "\<not> doc_bufferPages (penAt pos d')" "doc_pageBufferLength (penAt pos d') = 1"
    by simp_all
  from addPages_unbuffered [OF this, of "fst (layoutText e (penAt pos d') s opts)"] steps_text
  show ?case by (simp add: docText_paging)
qed (simp_all add: draw_def)

lemma steps_no_page:
  assumes "steps e d d'" and "\<And>d s opts. fst (layoutText e d s opts) = 0"
  shows "doc_bufferPages d' = doc_bufferPages d \<and> doc_pageBufferLength d' = doc_pageBufferLength d
    \<and> doc_pageBufferStart d' = doc_pageBufferStart d"
  using assms
  by (induction rule: steps.induct) (simp_all add: draw_def docText_paging)

lemma layoutPass_unbuffered:
  "\<not> doc_bufferPages (r_doc (layoutPass e a))"
  "doc_pageBufferLength (r_doc (layoutPass e a)) = 1"
  using steps_unbuffered [OF steps_layoutPass, of e a] by (simp_all add: newPDFDocument_def)

lemma addFooter_only_throws_out_of_bounds:
  "footerLoop e count i s = Threw err s' \<Longrightarrow> \<exists>n a b. err = SwitchToPageOutOfBounds n a b"
proof (induction e count i s rule: footerLoop.induct)
  case (1 e count i s)
  show ?case
  proof (cases "i < count")
    case False
    with 1 show ?thesis by (simp add: footerLoop_done)
  next
    case True
    show ?thesis
    proof (cases "switchToPage i (r_doc s)")
      case (Inl x)
      with True 1 show ?thesis
        by (auto simp: footerLoop_throw switchToPage_def split: if_splits)
    next
      case (Inr doc)
      with True 1 show ?thesis by (simp add: footerLoop_next)
    qed
  qed
qed

lemma addFooter_single_page:
  assumes "doc_pageBufferStart (r_doc s) = 0" and "doc_pageBufferLength (r_doc s) = 1"
  shows "addFooter e s = Done (s\<lparr>r_doc := footerOn e 1 0 ((r_doc s)\<lparr>doc_page := 0\<rparr>)\<rparr>)"
proof -
  have sw: "switchToPage 0 (r_doc s) = Inr ((r_doc s)\<lparr>doc_page := 0\<rparr>)"
    using assms by (simp add: switchToPage_def)
  have "footerLoop e 1 0 s
      = footerLoop e 1 (0 + 1) (s\<lparr>r_doc := footerOn e 1 0 ((r_doc s)\<lparr>doc_page := 0\<rparr>)\<rparr>)"
    by (rule footerLoop_next [OF _ sw]) simp
  also have "\<dots> = Done (s\<lparr>r_doc := footerOn e 1 0 ((r_doc s)\<lparr>doc_page := 0\<rparr>)\<rparr>)"
    by (rule footerLoop_done) simp
  finally show ?thesis
    using assms by (simp add: addFooter_def bufferedPageRange_def)
qed

lemma addFooter_flushed:
  assumes "0 < doc_pageBufferStart (r_doc s)" and "doc_pageBufferLength (r_doc s) = 1"
  shows "addFooter e s = Threw (SwitchToPageOutOfBounds 0 (doc_pageBufferStart (r_doc s)) 1) s"
proof -
  have "switchToPage 0 (r_doc s) = Inl (SwitchToPageOutOfBounds 0 (doc_pageBufferStart (r_doc s)) 1)"
    using assms by (simp add: switchToPage_def)
  then have "footerLoop e 1 0 s = Threw (SwitchToPageOutOfBounds 0 (doc_pageBufferStart (r_doc s)) 1) s"
    by (intro footerLoop_throw) simp_all
  then show ?thesis
    using assms by (simp add: addFooter_def bufferedPageRange_def)
qed

lemma generateArticlePDF_layoutPass:
  "generateArticlePDF e a out =
     (case addFooter e (layoutPass e a) of
        Threw err s \<Rightarrow> \<lparr>res_outcome = Rejected err, res_article = r_article s, res_written = None\<rparr>
      | Done s \<Rightarrow> onEnd e out s (docEnd (r_doc s)))"
  by (simp add: generateArticlePDF_def layoutPass_def Let_def)

text \<open>
  Claim C2 fails on the code, by the defect of claim C1. Whatever the layout engine and
  whatever the content: when the layout of the article has produced more than one page,
  \<^verbatim>\<open>addFooter\<close> throws at \<^verbatim>\<open>switchToPage(0)\<close>, the exception is caught and the
  promise is rejected; no buffer is delivered.
\<close>

theorem generateArticlePDF_rejects_after_page_break:
  "1 < pageCount (r_doc (layoutPass e article)) \<Longrightarrow>
   res_outcome (generateArticlePDF e article outputPath)
     = Rejected (SwitchToPageOutOfBounds 0 (pageCount (r_doc (layoutPass e article)) - 1) 1)"
proof -
  assume many: "1 < pageCount (r_doc (layoutPass e article))"
  have len: "doc_pageBufferLength (r_doc (layoutPass e article)) = 1"
    by (rule layoutPass_unbuffered)
  with many have start: "0 < doc_pageBufferStart (r_doc (layoutPass e article))"
    by (simp add: pageCount_def)
  show ?thesis
    using addFooter_flushed [OF start len, of e] len
    by (simp add: generateArticlePDF_layoutPass pageCount_def)
qed

text \<open>
  The hypothesis can hold: where every run of text starts a page, the title alone has
  left a page behind.
\<close>

lemma pageEnv_addHeader:
  "doc_pageBufferStart (r_doc (addHeader pageEnv
     \<lparr>r_article = a, r_doc = newPDFDocument defaultMargin False info\<rparr>)) = 1"
  by (simp add: addHeader_def chain_def fontSize_def font_def fillColor_def strokeColor_def
      lineWidth_def moveTo_def lineTo_def stroke_def moveDown_def draw_def docText_def penAt_def
      pageEnv_def lineEnv_def newPDFDocument_def addPage_def flushPages_def Let_def)

lemma pageEnv_layoutPass: "1 < pageCount (r_doc (layoutPass pageEnv a))"
proof -
  let ?s0 = "\<lparr>r_article = a, r_doc = newPDFDocument defaultMargin False (articleInfo pageEnv a)\<rparr>"
  let ?d1 = "r_doc (addHeader pageEnv ?s0)"
  have "steps pageEnv (r_doc ?s0) ?d1"
    by (rule steps_addHeader) (rule steps_refl)
  from steps_unbuffered [OF this]
  have d1: "\<not> doc_bufferPages ?d1" "doc_pageBufferLength ?d1 = 1"
    by (simp_all add: newPDFDocument_def)
  have "steps pageEnv ?d1 (r_doc (layoutPass pageEnv a))"
    by (simp add: layoutPass_def steps_addContent steps_addMetadata steps_refl)
  from steps_unbuffered [OF this d1] pageEnv_addHeader [of a "articleInfo pageEnv a"]
  show ?thesis by (simp add: pageCount_def)
qed

theorem generateArticlePDF_rejects_witness:
  "1 < pageCount (r_doc (layoutPass pageEnv sampleArticle))
   \<and> res_outcome (generateArticlePDF pageEnv sampleArticle None)
     = Rejected (SwitchToPageOutOfBounds 0 (pageCount (r_doc (layoutPass pageEnv sampleArticle)) - 1) 1)"
  using generateArticlePDF_rejects_after_page_break [OF pageEnv_layoutPass, of sampleArticle None]
    pageEnv_layoutPass [of sampleArticle]
  by simp

section \<open>The classifier\<close>

lemma takeWhile_take:
  assumes "list_all P (take n l)" and "n < length l" and "\<not> P (l ! n)"
  shows "takeWhile P l = take n l \<and> dropWhile P l = drop n l"
proof -
  have l: "l = take n l @ (l ! n) # drop (Suc n) l"
    using assms(2) by (simp add: id_take_nth_drop)
  have all: "\<forall>x \<in> set (take n l). P x"
    using assms(1) by (simp add: list_all_iff)
  have "takeWhile P (take n l @ (l ! n) # drop (Suc n) l) = take n l"
    using all assms(3) by (simp add: takeWhile_append2)
  moreover have "dropWhile P (take n l @ (l ! n) # drop (Suc n) l) = (l ! n) # drop (Suc n) l"
    using all assms(3) by (simp add: dropWhile_append2)
  ultimately show ?thesis
    using l assms(2) by (metis Cons_nth_drop_Suc)
qed

lemma dot_not_digit: "\<not> isDigit 0x2E"
  by (simp add: isDigit_def)

lemma matchesNumbered_spec: "matchesNumbered l = specNumbered l"
proof
  assume m: "matchesNumbered l"
  let ?n = "length (takeWhile isDigit l)"
  from m have ne: "takeWhile isDigit l \<noteq> []"
    and dw: "(case dropWhile isDigit l of c # w # rest \<Rightarrow> c = 0x2E \<and> isWhiteSpace w | _ \<Rightarrow> False)"
    by (simp_all add: matchesNumbered_def)
  from dw obtain c w rest where dwl: "dropWhile isDigit l = c # w # rest"
    by (auto split: list.splits)
  have "length l = ?n + length (dropWhile isDigit l)"
    by (metis length_append takeWhile_dropWhile_id)
  with dwl have lt: "?n < length l"
    by simp
  have tk: "take ?n l = takeWhile isDigit l"
    by (rule takeWhile_eq_take [symmetric])
  have dr: "drop ?n l = dropWhile isDigit l"
    by (rule dropWhile_eq_drop [symmetric])
  have "list_all isDigit (take ?n l)"
    unfolding tk by (auto simp: list_all_iff dest: set_takeWhileD)
  moreover have "?n \<in> {1 ..< length l}"
    using ne lt by (cases "takeWhile isDigit l") simp_all
  ultimately show "specNumbered l"
    unfolding specNumbered_def using dw dr by (intro bexI [of _ ?n]) simp_all
next
  assume "specNumbered l"
  then obtain n where n: "1 \<le> n" "n < length l" "list_all isDigit (take n l)"
    and c: "(case drop n l of c # w # rest \<Rightarrow> c = 0x2E \<and> isWhiteSpace w | _ \<Rightarrow> False)"
    by (auto simp: specNumbered_def)
  from c n(2) have "l ! n = 0x2E"
    by (auto simp: Cons_nth_drop_Suc [symmetric] split: list.splits)
  then have "\<not> isDigit (l ! n)" by (simp add: dot_not_digit)
  from takeWhile_take [OF n(3) n(2) this] n c show "matchesNumbered l"
    by (auto simp: matchesNumbered_def)
qed

lemma processLine_lineStyle:
  "processLine e doc raw = lineStyle e (specClassify (jsTrim raw)) (jsTrim raw) doc"
  by (simp add: processLine_def specClassify_def specRules_def Let_def matchesNumbered_spec)


lemma jsSplit_not_Nil: "jsSplit sep s \<noteq> []"
  by (cases s) (simp_all add: Let_def)

lemma startsWith_drop: "startsWith s p \<Longrightarrow> p @ drop (length p) s = s"
  by (induction s p rule: startsWith.induct) simp_all

lemma jsJoin_push: "r \<noteq> [] \<Longrightarrow> jsJoin sep ((c # hd r) # tl r) = c # jsJoin sep r"
proof -
  assume "r \<noteq> []"
  then obtain p ps where r: "r = p # ps" by (cases r) auto
  show ?thesis unfolding r by (cases ps) simp_all
qed

lemma jsJoin_empty_first: "r \<noteq> [] \<Longrightarrow> jsJoin sep ([] # r) = sep @ jsJoin sep r"
  by (cases r) simp_all

lemma jsJoin_jsSplit: "sep \<noteq> [] \<Longrightarrow> jsJoin sep (jsSplit sep s) = s"
proof (induction sep s rule: jsSplit.induct)
  case (1 sep)
  then show ?case by simp
next
  case (2 sep c cs)
  show ?case
  proof (cases "startsWith (c # cs) sep")
    case True
    with 2 have "jsJoin sep (jsSplit sep (drop (length sep) (c # cs))) = drop (length sep) (c # cs)"
      by simp
    with True 2(3) startsWith_drop [OF True] show ?thesis
      by (simp add: jsJoin_empty_first jsSplit_not_Nil del: drop_Suc_Cons)
  next
    case False
    with 2 have "jsJoin sep (jsSplit sep cs) = cs" by simp
    with False show ?thesis
      by (simp add: Let_def jsJoin_push jsSplit_not_Nil)
  qed
qed

lemma split_lines_no_newline: "list_all (\<lambda>p. 0x0A \<notin> set p) (jsSplit [0x0A] s)"
proof (induction s)
  case Nil
  then show ?case by simp
next
  case (Cons c cs)
  from Cons jsSplit_not_Nil [of "[0x0A]" cs] show ?case
    by (cases "jsSplit [0x0A] cs") (auto simp: Let_def)
qed

lemma jsTrim_trimmed:
  "jsTrim s = [] \<or> (\<not> isWhiteSpace (hd (jsTrim s)) \<and> \<not> isWhiteSpace (last (jsTrim s)))"
proof (cases "jsTrim s = []")
  case True
  then show ?thesis by simp
next
  case False
  let ?a = "dropWhile isWhiteSpace s"
  let ?b = "dropWhile isWhiteSpace (rev ?a)"
  from False have b: "?b \<noteq> []" by (simp add: jsTrim_def)
  then have hb: "\<not> isWhiteSpace (hd ?b)" by (rule hd_dropWhile)
  from b have a: "?a \<noteq> []" by (auto dest: set_dropWhileD)
  then have ha: "\<not> isWhiteSpace (hd ?a)" by (rule hd_dropWhile)
  have last_b: "last ?b = hd ?a"
  proof -
    have "rev ?a = takeWhile isWhiteSpace (rev ?a) @ ?b" by simp
    with b have "last (rev ?a) = last ?b" by (metis last_appendR)
    with a show ?thesis by (simp add: last_rev)
  qed
  have "hd (jsTrim s) = last ?b" using b by (simp add: jsTrim_def hd_rev)
  moreover have "last (jsTrim s) = hd ?b" using b by (simp add: jsTrim_def last_rev)
  ultimately show ?thesis using ha hb last_b by simp
qed

text \<open>
  Claim C4. The content is split at its newline characters (the pieces hold no newline
  and joined by newlines give the content back); each piece is trimmed, so that it is
  empty or neither starts nor ends with white space; and what is drawn for it is the
  style of the first rule of the specification's list, in its order, that the trimmed
  line matches. So a line that starts with \<^verbatim>\<open>"### "\<close> gets the sub-heading style, one
  that starts with \<^verbatim>\<open>"## "\<close> the heading style, one that starts with \<^verbatim>\<open>"# "\<close> the
  top-level style, and a line that starts with \<^verbatim>\<open>"- "\<close> or \<^verbatim>\<open>"* "\<close> is a bullet
  item whatever follows, a bold delimiter included.
\<close>

theorem processMarkdownContent_first_match:
  "processMarkdownContent e content doc
     = foldl (\<lambda>d raw. lineStyle e (specClassify (jsTrim raw)) (jsTrim raw) d) doc
         (jsSplit [0x0A] content)
   \<and> jsJoin [0x0A] (jsSplit [0x0A] content) = content
   \<and> list_all (\<lambda>p. 0x0A \<notin> set p) (jsSplit [0x0A] content)
   \<and> (jsTrim raw = [] \<or> (\<not> isWhiteSpace (hd (jsTrim raw)) \<and> \<not> isWhiteSpace (last (jsTrim raw))))
   \<and> processLine e doc raw = lineStyle e (specClassify (jsTrim raw)) (jsTrim raw) doc
   \<and> specClassify (js ''### '' @ t) = SubHeading
   \<and> specClassify (js ''## '' @ t) = Heading
   \<and> specClassify (js ''# '' @ t) = TopHeading
   \<and> specClassify (js ''- '' @ t) = BulletItem
   \<and> specClassify (js ''* '' @ t) = BulletItem"
proof -
  have "processLine e = (\<lambda>d raw. lineStyle e (specClassify (jsTrim raw)) (jsTrim raw) d)"
    by (intro ext) (rule processLine_lineStyle)
  then have content: "processMarkdownContent e content doc
     = foldl (\<lambda>d raw. lineStyle e (specClassify (jsTrim raw)) (jsTrim raw) d) doc
         (jsSplit [0x0A] content)"
    by (simp add: processMarkdownContent_def)
  have join: "jsJoin [0x0A] (jsSplit [0x0A] content) = content"
    by (rule jsJoin_jsSplit) simp
  have kinds: "specClassify (js ''### '' @ t) = SubHeading"
    "specClassify (js ''## '' @ t) = Heading"
    "specClassify (js ''# '' @ t) = TopHeading"
    "specClassify (js ''- '' @ t) = BulletItem"
    "specClassify (js ''* '' @ t) = BulletItem"
    by (simp_all add: specClassify_def specRules_def js_def)
  show ?thesis
    by (intro conjI content join split_lines_no_newline jsTrim_trimmed processLine_lineStyle kinds)
qed

text \<open>
  Claim C10. A trimmed line that starts with \<^verbatim>\<open>#\<close> but with none of \<^verbatim>\<open>"# "\<close>,
  \<^verbatim>\<open>"## "\<close>, \<^verbatim>\<open>"### "\<close> gets no heading style: it goes to the bold splitter when it
  contains the bold delimiter, and is drawn as a plain justified paragraph otherwise.
\<close>

theorem hash_without_space_is_paragraph:
  assumes "jsTrim raw = 0x23 # rest"
    and "\<not> startsWith (jsTrim raw) (js ''# '')"
    and "\<not> startsWith (jsTrim raw) (js ''## '')"
    and "\<not> startsWith (jsTrim raw) (js ''### '')"
  shows "specClassify (jsTrim raw) = (if jsIncludes (jsTrim raw) (js ''**'') then BoldLine else Paragraph)
    \<and> processLine e doc raw =
        (if jsIncludes (jsTrim raw) (js ''**'') then processBoldText e (jsTrim raw) doc
         else moveDown e (2 / 10)
           (chain doc [fontSize 10, font Helvetica, fillColor ''#374151'',
              docText e (jsTrim raw) None
                (noOptions\<lparr>opt_align := Some AlignJustify, opt_lineGap := Some 4\<rparr>)]))"
proof -
  have bullet: "\<not> startsWith (0x23 # rest) (js ''- '')" "\<not> startsWith (0x23 # rest) (js ''* '')"
    "\<not> startsWith (0x23 # rest) (js ''> '')"
    by (simp_all add: js_def)
  have num: "\<not> specNumbered (0x23 # rest)"
    unfolding matchesNumbered_spec [symmetric] by (simp add: matchesNumbered_def isDigit_def)
  have kind: "specClassify (jsTrim raw)
      = (if jsIncludes (jsTrim raw) (js ''**'') then BoldLine else Paragraph)"
    using assms bullet num by (simp add: specClassify_def specRules_def)
  show ?thesis
    unfolding processLine_lineStyle kind by simp
qed

text \<open>The line \<^verbatim>\<open>" #Title"\<close> is such a line, and is drawn as a paragraph.\<close>

theorem hash_without_space_witness:
  "jsTrim (js '' #Title'') = 0x23 # js ''Title''
   \<and> specClassify (jsTrim (js '' #Title'')) = Paragraph
   \<and> processLine (lineEnv 12) (newPDFDocument 50 False (articleInfo (lineEnv 12) sampleArticle))
         (js '' #Title'')
       = moveDown (lineEnv 12) (2 / 10)
           (chain (newPDFDocument 50 False (articleInfo (lineEnv 12) sampleArticle))
              [fontSize 10, font Helvetica, fillColor ''#374151'',
               docText (lineEnv 12) (jsTrim (js '' #Title'')) None
                 (noOptions\<lparr>opt_align := Some AlignJustify, opt_lineGap := Some 4\<rparr>)])"
proof -
  have t: "jsTrim (js '' #Title'') = 0x23 # js ''Title''"
    by (simp add: jsTrim_def js_def isWhiteSpace_def)
  have h: "\<not> startsWith (jsTrim (js '' #Title'')) (js ''# '')"
    "\<not> startsWith (jsTrim (js '' #Title'')) (js ''## '')"
    "\<not> startsWith (jsTrim (js '' #Title'')) (js ''### '')"
    unfolding t by (simp_all add: js_def)
  have b: "\<not> jsIncludes (jsTrim (js '' #Title'')) (js ''**'')"
    unfolding t by (simp add: js_def)
  show ?thesis
    using hash_without_space_is_paragraph [OF t h,
        of "lineEnv 12" "newPDFDocument 50 False (articleInfo (lineEnv 12) sampleArticle)"] t b
    by simp
qed

section \<open>Failures\<close>

lemma onEnd_not_rejected: "res_outcome (onEnd e out s b) \<noteq> Rejected err"
  by (simp add: onEnd_def split: option.split)

text \<open>
  Claim C8 fails on the code. A failure to write the file is never reported by rejecting
  the promise, as a failure to draw is: \<^verbatim>\<open>writeFileSync\<close> is called in the listener
  of \<^verbatim>\<open>'end'\<close>, outside the \<^verbatim>\<open>try\<close> block that rejects. For an article laid out on
  one page and a path that cannot be written, the promise stays pending and no file is
  written.
\<close>

theorem write_failure_is_not_reported:
  "res_outcome (generateArticlePDF e article outputPath) \<noteq> Rejected (WriteFileFailed p)
   \<and> (pageCount (r_doc (layoutPass e article)) = 1 \<and> q \<noteq> [] \<and> \<not> writable e q \<longrightarrow>
        res_outcome (generateArticlePDF e article (Some q)) = Unsettled (WriteFileFailed q)
        \<and> res_written (generateArticlePDF e article (Some q)) = None)"
proof (intro conjI impI)
  show "res_outcome (generateArticlePDF e article outputPath) \<noteq> Rejected (WriteFileFailed p)"
  proof (cases "addFooter e (layoutPass e article)")
    case (Done s)
    then show ?thesis
      by (simp add: generateArticlePDF_layoutPass onEnd_not_rejected)
  next
    case (Threw err s)
    then have "\<exists>n a b. err = SwitchToPageOutOfBounds n a b"
      by (auto simp: addFooter_def bufferedPageRange_def
          dest: addFooter_only_throws_out_of_bounds)
    with Threw show ?thesis
      by (auto simp: generateArticlePDF_layoutPass)
  qed
next
  assume a: "pageCount (r_doc (layoutPass e article)) = 1 \<and> q \<noteq> [] \<and> \<not> writable e q"
  have len: "doc_pageBufferLength (r_doc (layoutPass e article)) = 1"
    by (rule layoutPass_unbuffered)
  with a have start: "doc_pageBufferStart (r_doc (layoutPass e article)) = 0"
    by (simp add: pageCount_def)
  from addFooter_single_page [OF start len, of e] a
  show "res_outcome (generateArticlePDF e article (Some q)) = Unsettled (WriteFileFailed q)"
    and "res_written (generateArticlePDF e article (Some q)) = None"
    by (simp_all add: generateArticlePDF_layoutPass onEnd_def)
qed

text \<open>Such a call: no page is added in \<open>lineEnv\<close>, and only paths under \<^verbatim>\<open>/tmp/\<close> can be written.\<close>

lemma lineEnv_layoutPass: "pageCount (r_doc (layoutPass (lineEnv h) a)) = 1"
  using steps_no_page [OF steps_layoutPass, of "lineEnv h" a]
  by (simp add: pageCount_def newPDFDocument_def lineEnv_def)

theorem write_failure_witness:
  "pageCount (r_doc (layoutPass (lineEnv 12) sampleArticle)) = 1
   \<and> js ''/nonexistent/article.pdf'' \<noteq> []
   \<and> \<not> writable (lineEnv 12) (js ''/nonexistent/article.pdf'')
   \<and> res_outcome (generateArticlePDF (lineEnv 12) sampleArticle (Some (js ''/nonexistent/article.pdf'')))
       = Unsettled (WriteFileFailed (js ''/nonexistent/article.pdf''))
   \<and> res_written (generateArticlePDF (lineEnv 12) sampleArticle (Some (js ''/nonexistent/article.pdf'')))
       = None"
proof -
  have w: "\<not> writable (lineEnv 12) (js ''/nonexistent/article.pdf'')"
    by (simp add: lineEnv_def js_def)
  have n: "js ''/nonexistent/article.pdf'' \<noteq> []"
    by (simp add: js_def)
  show ?thesis
    using write_failure_is_not_reported [of "lineEnv 12" sampleArticle None "[]"
        "js ''/nonexistent/article.pdf''"] lineEnv_layoutPass [of 12 sampleArticle] w n
    by simp
qed

section \<open>The bold splitter\<close>

lemma runsOf_append: "runsOf (xs @ ys) = runsOf xs @ runsOf ys"
  by (induction xs rule: runsOf.induct) simp_all

lemma addPages_ops: "doc_ops ((addPage ^^ n) d) = doc_ops d"
  by (induction n) (simp_all add: addPage_def flushPages_def Let_def)

lemma addPages_style:
  "doc_font ((addPage ^^ n) d) = doc_font d"
  "doc_fontSize ((addPage ^^ n) d) = doc_fontSize d"
  "doc_fillColor ((addPage ^^ n) d) = doc_fillColor d"
  by (induction n) (simp_all add: addPage_def flushPages_def Let_def)

lemma penAt_style [simp]:
  "doc_font (penAt pos d) = doc_font d"
  "doc_fontSize (penAt pos d) = doc_fontSize d"
  "doc_fillColor (penAt pos d) = doc_fillColor d"
  "doc_ops (penAt pos d) = doc_ops d"
  by (simp_all add: penAt_def split: option.split)

lemma docText_runs:
  "runsOf (doc_ops (docText e s pos opts d))
     = runsOf (doc_ops d) @
       [\<lparr>run_text = s, run_x = doc_x (penAt pos d), run_y = doc_y (penAt pos d),
         run_font = doc_font d, run_size = doc_fontSize d, run_color = doc_fillColor d,
         run_options = opts\<rparr>]"
  by (simp add: docText_def Let_def split_beta draw_def runsOf_append addPages_ops)

lemma docText_style:
  "doc_font (docText e s pos opts d) = doc_font d"
  "doc_fontSize (docText e s pos opts d) = doc_fontSize d"
  "doc_fillColor (docText e s pos opts d) = doc_fillColor d"
  by (simp_all add: docText_def Let_def split_beta draw_def addPages_style)

lemma boldPart_view:
  "map boldView (runsOf (doc_ops (boldPart e parts d i)))
     = map boldView (runsOf (doc_ops d)) @
       [(parts ! i, if even i then Helvetica else HelveticaBold, i < length parts - 1)]"
  by (simp add: boldPart_def chain_def docText_runs boldView_def font_def fontSize_def
      fillColor_def even_iff_mod_2_eq_zero)

lemma boldParts_view:
  "map boldView (runsOf (doc_ops (foldl (boldPart e parts) d is)))
     = map boldView (runsOf (doc_ops d)) @
       map (\<lambda>i. (parts ! i, if even i then Helvetica else HelveticaBold, i < length parts - 1)) is"
  by (induction "is" arbitrary: d) (simp_all add: boldPart_view)

lemma processBoldText_view:
  "map boldView (runsOf (doc_ops (processBoldText e t doc)))
     = map boldView (runsOf (doc_ops doc)) @
       map (\<lambda>i. (jsSplit (js ''**'') t ! i, if even i then Helvetica else HelveticaBold,
                 i < length (jsSplit (js ''**'') t) - 1))
         [0 ..< length (jsSplit (js ''**'') t)]"
  by (simp add: processBoldText_def Let_def moveDown_def boldParts_view)

lemma split_one_pair:
  "jsSplit (js ''**'') (js ''plain **bold** plain'') = [js ''plain '', js ''bold'', js '' plain'']"
  by (simp add: js_def Let_def)

lemma split_unpaired: "jsSplit (js ''**'') (js ''a **b'') = [js ''a '', js ''b'']"
  by (simp add: js_def Let_def)

section \<open>The metadata rows\<close>

lemma labelYs_append: "labelYs (xs @ ys) = labelYs xs @ labelYs ys"
  by (simp add: labelYs_def runsOf_append)

lemma docText_labelYs:
  "labelYs (doc_ops (docText e s pos opts d))
     = labelYs (doc_ops d) @ (if opt_width opts = Some 80 then [doc_y (penAt pos d)] else [])"
  by (simp add: labelYs_def docText_runs)

lemma docText_pen:
  "doc_x (docText e s pos opts d) = doc_x (penAt pos d)"
  "doc_y (docText e s pos opts d) = snd (layoutText e (penAt pos d) s opts)"
  by (simp_all add: docText_def Let_def split_beta)

lemma penAt_Some [simp]:
  "doc_x (penAt (Some (px, py)) d) = px"
  "doc_y (penAt (Some (px, py)) d) = py"
  by (simp_all add: penAt_def)

lemma penAt_None [simp]: "penAt None d = d"
  by (simp add: penAt_def)

lemma metadataRow_labelYs:
  "labelYs (doc_ops (metadataRow e d (i, l, v)))
     = labelYs (doc_ops d) @ [doc_y d + of_nat i * 18]"
  by (simp add: metadataRow_def Let_def chain_def docText_labelYs font_def noOptions_def)

lemma metadataRow_pen:
  assumes "\<And>d s opts. layoutText e d s opts = (0, doc_y d + h)"
  shows "doc_y (metadataRow e d (i, l, v)) = doc_y d + of_nat i * 18 + h"
  by (simp add: metadataRow_def Let_def chain_def docText_pen assms)


lemma draw_labelYs:
  "labelYs (doc_ops (rect px py w h d)) = labelYs (doc_ops d)"
  "labelYs (doc_ops (fillAndStroke c c' d)) = labelYs (doc_ops d)"
  "labelYs (doc_ops (fillColor c d)) = labelYs (doc_ops d)"
  "labelYs (doc_ops (font f d)) = labelYs (doc_ops d)"
  "labelYs (doc_ops (fontSize z d)) = labelYs (doc_ops d)"
  "labelYs (doc_ops (moveDown e n d)) = labelYs (doc_ops d)"
  "labelYs (doc_ops (d\<lparr>doc_x := px\<rparr>)) = labelYs (doc_ops d)"
  "labelYs (doc_ops (d\<lparr>doc_y := py\<rparr>)) = labelYs (doc_ops d)"
  by (simp_all add: rect_def fillAndStroke_def fillColor_def strokeColor_def font_def
      fontSize_def moveDown_def draw_def labelYs_def runsOf_append)

lemma tagChip_labelYs:
  "labelYs (doc_ops (fst (tagChip e p tag))) = labelYs (doc_ops (fst p))"
  by (cases p) (simp add: tagChip_def Let_def chain_def docText_labelYs draw_labelYs
      noOptions_def)

lemma tagChips_labelYs:
  "labelYs (doc_ops (fst (foldl (tagChip e) p tags))) = labelYs (doc_ops (fst p))"
  by (induction tags arbitrary: p) (simp_all add: tagChip_labelYs)

lemma addTags_labelYs: "labelYs (doc_ops (addTags e tags d)) = labelYs (doc_ops d)"
proof -
  let ?d = "chain d [font HelveticaBold,
    docText e (js ''Tags:'') (Some (defaultMargin + 20, doc_y d)) noOptions]"
  have "labelYs (doc_ops ?d) = labelYs (doc_ops d)"
    by (simp add: chain_def docText_labelYs font_def noOptions_def)
  moreover have "labelYs (doc_ops (fst (foldl (tagChip e) (?d, doc_y ?d) tags))) = labelYs (doc_ops ?d)"
    using tagChips_labelYs [of e "(?d, doc_y ?d)" tags] by simp
  ultimately show ?thesis
    by (simp add: addTags_def Let_def split_beta)
qed

lemma metadata_rows_labelYs:
  assumes layout: "\<And>d s opts. layoutText e d s opts = (0, doc_y d + h)"
  shows "labelYs (doc_ops (foldl (metadataRow e) d (enumerate 0 (metadata e a))))
     = labelYs (doc_ops d) @
       [doc_y d, doc_y d + h + 18, doc_y d + 2 * h + 54, doc_y d + 3 * h + 108,
        doc_y d + 4 * h + 180]"
  by (simp add: metadata_def metadataRow_labelYs metadataRow_pen [OF layout])

text \<open>
  Claim C6 fails on the code. The callback computes the row's position from
  \<^verbatim>\<open>doc.y\<close> as it is when the row is drawn, and drawing a row moves \<^verbatim>\<open>doc.y\<close>: the
  call \<^verbatim>\<open>text(.., x, y)\<close> puts the pen at \<open>y\<close> and leaves it below the text. With a
  layout in which a run takes a line of height \<open>h\<close>, the five labels are drawn at the
  offsets \<open>0\<close>, \<open>h + 18\<close>, \<open>2h + 54\<close>, \<open>3h + 108\<close> and \<open>4h + 180\<close> from the position of the
  first, not at \<open>0\<close>, \<open>18\<close>, \<open>36\<close>, \<open>54\<close> and \<open>72\<close>.
\<close>

theorem addMetadata_rows_drift:
  assumes layout: "\<And>d s opts. layoutText e d s opts = (0, doc_y d + h)"
  shows "labelYs (doc_ops (r_doc (addMetadata e s)))
     = labelYs (doc_ops (r_doc s)) @
       map (\<lambda>off. doc_y (r_doc s)
                + currentLineHeight e (doc_font (r_doc s)) (doc_fontSize (r_doc s)) * (1 / 2) + off)
         [0, h + 18, 2 * h + 54, 3 * h + 108, 4 * h + 180]"
proof -
  define d1 where "d1 = chain (moveDown e (1 / 2)
      (chain (r_doc s) [rect defaultMargin (doc_y (r_doc s)) (pageWidth - 2 * defaultMargin) 120,
         fillAndStroke ''#f8fafc'' ''#e2e8f0'']))
    [fontSize 10, font Helvetica, fillColor ''#4b5563'']"
  define d2 where "d2 = foldl (metadataRow e) d1 (enumerate 0 (metadata e (r_article s)))"
  define d3 where "d3 = d2\<lparr>doc_y := doc_y d2 + of_nat (length (metadata e (r_article s))) * 18 + 10\<rparr>"
  have y1: "doc_y d1 = doc_y (r_doc s)
      + currentLineHeight e (doc_font (r_doc s)) (doc_fontSize (r_doc s)) * (1 / 2)"
    by (simp add: d1_def chain_def rect_def fillAndStroke_def fillColor_def strokeColor_def
        font_def fontSize_def moveDown_def draw_def)
  have l1: "labelYs (doc_ops d1) = labelYs (doc_ops (r_doc s))"
    by (simp add: d1_def chain_def draw_labelYs)
  have l2: "labelYs (doc_ops d2) = labelYs (doc_ops d1) @
       [doc_y d1, doc_y d1 + h + 18, doc_y d1 + 2 * h + 54, doc_y d1 + 3 * h + 108,
        doc_y d1 + 4 * h + 180]"
    unfolding d2_def by (rule metadata_rows_labelYs [OF layout])
  have "r_doc (addMetadata e s) = moveDown e 1
      (case art_tags (r_article s) of
         None \<Rightarrow> d3
       | Some tags \<Rightarrow> if length tags > 0 then addTags e tags d3 else d3)"
    unfolding addMetadata_def Let_def d1_def d2_def d3_def
    by (cases "art_tags (r_article s)") simp_all
  then have "labelYs (doc_ops (r_doc (addMetadata e s))) = labelYs (doc_ops d2)"
    by (simp add: draw_labelYs addTags_labelYs d3_def split: option.split)
  then show ?thesis
    by (simp add: l2 l1 y1)
qed

text \<open>With a line of 12 points the labels of the sample article lie at 56, 86, 134, 200 and 284.\<close>

theorem addMetadata_rows_drift_witness:
  "(\<forall>d s opts. layoutText (lineEnv 12) d s opts = (0, doc_y d + 12))
   \<and> labelYs (doc_ops (r_doc (addMetadata (lineEnv 12)
        \<lparr>r_article = sampleArticle,
          r_doc = newPDFDocument 50 False (articleInfo (lineEnv 12) sampleArticle)\<rparr>)))
     = [56, 86, 134, 200, 284]"
proof -
  have layout: "\<And>d s opts. layoutText (lineEnv 12) d s opts = (0, doc_y d + 12)"
    by (simp add: lineEnv_def)
  have "labelYs (doc_ops (newPDFDocument 50 False (articleInfo (lineEnv 12) sampleArticle))) = []"
    by (simp add: newPDFDocument_def labelYs_def)
  with addMetadata_rows_drift [of "lineEnv 12" 12, OF layout,
      of "\<lparr>r_article = sampleArticle,
          r_doc = newPDFDocument 50 False (articleInfo (lineEnv 12) sampleArticle)\<rparr>"] layout
  show ?thesis
    by (simp add: newPDFDocument_def lineEnv_def)
qed

section \<open>The tag chips\<close>











section \<open>The bold splitter and the pen\<close>

lemma boldPart_pen:
  assumes "\<And>d s opts. layoutText e d s opts
      = (0, if opt_continued opts \<or> s = [] then doc_y d else doc_y d + h)"
  shows "doc_y (boldPart e parts d i)
     = (if i < length parts - 1 \<or> parts ! i = [] then doc_y d else doc_y d + h)"
  by (simp add: boldPart_def chain_def docText_pen assms font_def fontSize_def fillColor_def
      noOptions_def)

lemma boldPart_style:
  "doc_font (boldPart e parts d i) = (if even i then Helvetica else HelveticaBold)"
  "doc_fontSize (boldPart e parts d i) = (if even i then 10 else doc_fontSize d)"
  by (simp_all add: boldPart_def chain_def docText_style font_def fontSize_def fillColor_def
      even_iff_mod_2_eq_zero)

lemma boldParts_continued_pen:
  assumes "\<And>d s opts. layoutText e d s opts
      = (0, if opt_continued opts \<or> s = [] then doc_y d else doc_y d + h)"
  shows "n \<le> length parts - 1 \<Longrightarrow> doc_y (foldl (boldPart e parts) d [0 ..< n]) = doc_y d"
  by (induction n) (simp_all add: boldPart_pen [OF assms])

lemma boldParts_size:
  "0 < n \<Longrightarrow> doc_fontSize (foldl (boldPart e parts) d [0 ..< n]) = 10"
proof (induction n)
  case 0
  then show ?case by simp
next
  case (Suc n)
  then show ?case by (cases "n = 0") (simp_all add: boldPart_style)
qed

lemma boldParts_font:
  "0 < n \<Longrightarrow> doc_font (foldl (boldPart e parts) d [0 ..< n])
     = (if even n then HelveticaBold else Helvetica)"
  by (cases n) (simp_all add: boldPart_style)

lemma processBoldText_pen:
  assumes layout: "\<And>d s opts. layoutText e d s opts
      = (0, if opt_continued opts \<or> s = [] then doc_y d else doc_y d + h)"
  shows "doc_y (processBoldText e t doc)
     = doc_y doc + (if last (jsSplit (js ''**'') t) = [] then 0 else h)
       + currentLineHeight e
           (if even (length (jsSplit (js ''**'') t)) then HelveticaBold else Helvetica) 10
         * (2 / 10)"
proof -
  let ?parts = "jsSplit (js ''**'') t"
  let ?n = "length ?parts"
  have n: "0 < ?n" using jsSplit_not_Nil [of "js ''**''" t] by simp
  then obtain m where m: "?n = Suc m" by (cases ?n) auto
  let ?d = "foldl (boldPart e ?parts) doc [0 ..< m]"
  have before: "doc_y ?d = doc_y doc"
    by (rule boldParts_continued_pen [OF layout]) (simp add: m)
  have all: "foldl (boldPart e ?parts) doc [0 ..< ?n] = boldPart e ?parts ?d m"
    by (simp add: m)
  have lst: "?parts ! m = last ?parts"
    using m jsSplit_not_Nil [of "js ''**''" t] by (simp add: last_conv_nth)
  have y: "doc_y (foldl (boldPart e ?parts) doc [0 ..< ?n])
      = doc_y doc + (if last ?parts = [] then 0 else h)"
    unfolding all by (simp add: boldPart_pen [OF layout] before m lst)
  show ?thesis
    by (simp add: processBoldText_def Let_def moveDown_def y boldParts_size [OF n]
        boldParts_font [OF n])
qed

lemma boldPart_run_y:
  "map run_y (runsOf (doc_ops (boldPart e parts d i))) = map run_y (runsOf (doc_ops d)) @ [doc_y d]"
  by (simp add: boldPart_def chain_def docText_runs font_def fontSize_def fillColor_def)

lemma boldParts_run_y:
  assumes "\<And>d s opts. layoutText e d s opts
      = (0, if opt_continued opts \<or> s = [] then doc_y d else doc_y d + h)"
  shows "n \<le> length parts \<Longrightarrow>
    map run_y (runsOf (doc_ops (foldl (boldPart e parts) d [0 ..< n])))
      = map run_y (runsOf (doc_ops d)) @ replicate n (doc_y d)"
proof (induction n)
  case 0
  then show ?case by simp
next
  case (Suc n)
  then have "doc_y (foldl (boldPart e parts) d [0 ..< n]) = doc_y d"
    by (intro boldParts_continued_pen [OF assms]) simp
  with Suc show ?case
    by (simp add: boldPart_run_y replicate_append_same)
qed

lemma processBoldText_run_y:
  assumes "\<And>d s opts. layoutText e d s opts
      = (0, if opt_continued opts \<or> s = [] then doc_y d else doc_y d + h)"
  shows "map run_y (runsOf (doc_ops (processBoldText e t doc)))
     = map run_y (runsOf (doc_ops doc)) @ replicate (length (jsSplit (js ''**'') t)) (doc_y doc)"
  by (simp add: processBoldText_def Let_def moveDown_def boldParts_run_y [OF assms])

lemma split_bold_only: "jsSplit (js ''**'') (js ''**bold**'') = [[], js ''bold'', []]"
  by (simp add: js_def Let_def)

text \<open>
  Claim C5 fails on the code in one case. For every line and every layout engine the
  splitter splits the line at the occurrences of \<^verbatim>\<open>**\<close> (joined by the delimiter the
  pieces give the line back, and there is at least one) and draws one run of text for each
  piece, in order: the piece at an even index in Helvetica, the piece at an odd index in
  Helvetica-Bold, every run but the last continued; nothing pairs the delimiters and no
  line makes the splitter fail (\<^verbatim>\<open>plain **bold** plain\<close> gives three runs, \<^verbatim>\<open>a **b\<close>
  two, the last one bold). With a layout that, as PDFKit does, leaves the pen on its line
  after a run that is continued or empty and moves it down by \<open>h\<close> after any other run, all
  runs of a line are drawn at one height, and the pen ends \<open>h\<close> lower (before the fixed
  \<^verbatim>\<open>moveDown(0.2)\<close>) only when the last piece is not empty. The last piece is empty
  whenever the line ends with a delimiter, as \<^verbatim>\<open>**bold**\<close> does: then the final segment
  does not terminate the line.
\<close>

theorem processBoldText_segments_and_pen:
  "map boldView (runsOf (doc_ops (processBoldText e t doc)))
     = map boldView (runsOf (doc_ops doc)) @
       map (\<lambda>i. (jsSplit (js ''**'') t ! i, if even i then Helvetica else HelveticaBold,
                 i < length (jsSplit (js ''**'') t) - 1))
         [0 ..< length (jsSplit (js ''**'') t)]
   \<and> jsJoin (js ''**'') (jsSplit (js ''**'') t) = t
   \<and> jsSplit (js ''**'') t \<noteq> []
   \<and> map boldView (runsOf (doc_ops (processBoldText e (js ''plain **bold** plain'') doc)))
     = map boldView (runsOf (doc_ops doc)) @
       [(js ''plain '', Helvetica, True), (js ''bold'', HelveticaBold, True),
        (js '' plain'', Helvetica, False)]
   \<and> map boldView (runsOf (doc_ops (processBoldText e (js ''a **b'') doc)))
     = map boldView (runsOf (doc_ops doc)) @
       [(js ''a '', Helvetica, True), (js ''b'', HelveticaBold, False)]
   \<and> jsSplit (js ''**'') (js ''**bold**'') = [[], js ''bold'', []]
   \<and> ((\<forall>d s opts. layoutText e d s opts
          = (0, if opt_continued opts \<or> s = [] then doc_y d else doc_y d + h)) \<longrightarrow>
        map run_y (runsOf (doc_ops (processBoldText e t doc)))
          = map run_y (runsOf (doc_ops doc)) @
            replicate (length (jsSplit (js ''**'') t)) (doc_y doc)
        \<and> doc_y (processBoldText e t doc)
          = doc_y doc + (if last (jsSplit (js ''**'') t) = [] then 0 else h)
            + currentLineHeight e
                (if even (length (jsSplit (js ''**'') t)) then HelveticaBold else Helvetica) 10
              * (2 / 10))"
proof -
  have join: "jsJoin (js ''**'') (jsSplit (js ''**'') t) = t"
    by (rule jsJoin_jsSplit) (simp add: js_def)
  have three: "[0 ..< 3] = [0, 1, 2]" and two: "[0 ..< 2] = [0, 1]"
    by (simp_all add: upt_rec)
  have pair: "map boldView (runsOf (doc_ops (processBoldText e (js ''plain **bold** plain'') doc)))
     = map boldView (runsOf (doc_ops doc)) @
       [(js ''plain '', Helvetica, True), (js ''bold'', HelveticaBold, True),
        (js '' plain'', Helvetica, False)]"
    unfolding processBoldText_view split_one_pair by (simp add: three)
  have odd: "map boldView (runsOf (doc_ops (processBoldText e (js ''a **b'') doc)))
     = map boldView (runsOf (doc_ops doc)) @
       [(js ''a '', Helvetica, True), (js ''b'', HelveticaBold, False)]"
    unfolding processBoldText_view split_unpaired by (simp add: two)
  have pen: "(\<forall>d s opts. layoutText e d s opts
          = (0, if opt_continued opts \<or> s = [] then doc_y d else doc_y d + h)) \<longrightarrow>
        map run_y (runsOf (doc_ops (processBoldText e t doc)))
          = map run_y (runsOf (doc_ops doc)) @
            replicate (length (jsSplit (js ''**'') t)) (doc_y doc)
        \<and> doc_y (processBoldText e t doc)
          = doc_y doc + (if last (jsSplit (js ''**'') t) = [] then 0 else h)
            + currentLineHeight e
                (if even (length (jsSplit (js ''**'') t)) then HelveticaBold else Helvetica) 10
              * (2 / 10)"
  proof (intro impI conjI)
    assume "\<forall>d s opts. layoutText e d s opts
          = (0, if opt_continued opts \<or> s = [] then doc_y d else doc_y d + h)"
    then have layout: "\<And>d s opts. layoutText e d s opts
          = (0, if opt_continued opts \<or> s = [] then doc_y d else doc_y d + h)"
      by blast
    show "map run_y (runsOf (doc_ops (processBoldText e t doc)))
          = map run_y (runsOf (doc_ops doc)) @
            replicate (length (jsSplit (js ''**'') t)) (doc_y doc)"
      by (rule processBoldText_run_y [OF layout])
    show "doc_y (processBoldText e t doc)
          = doc_y doc + (if last (jsSplit (js ''**'') t) = [] then 0 else h)
            + currentLineHeight e
                (if even (length (jsSplit (js ''**'') t)) then HelveticaBold else Helvetica) 10
              * (2 / 10)"
      by (rule processBoldText_pen [OF layout])
  qed
  show ?thesis
    by (intro conjI processBoldText_view join jsSplit_not_Nil pair odd split_bold_only pen)
qed

text \<open>
  In \<open>penEnv\<close> with lines of 12 points, from the top of a new page at 50: after the line
  \<^verbatim>\<open>**bold**\<close> the pen is at 52.4, 2.4 below the line it drew on, where after
  \<^verbatim>\<open>**bold** x\<close> it is at 64.4; and in the content \<^verbatim>\<open>**bold**\<close>, newline,
  \<^verbatim>\<open>next\<close> the second line is drawn at 52.4, over the first.
\<close>

theorem processBoldText_pen_witness:
  "(\<forall>d s opts. layoutText (penEnv 12) d s opts
      = (0, if opt_continued opts \<or> s = [] then doc_y d else doc_y d + 12))
   \<and> last (jsSplit (js ''**'') (js ''**bold**'')) = []
   \<and> doc_y (processBoldText (penEnv 12) (js ''**bold**'')
        (newPDFDocument 50 False (articleInfo (penEnv 12) sampleArticle))) = 262 / 5
   \<and> doc_y (processBoldText (penEnv 12) (js ''**bold** x'')
        (newPDFDocument 50 False (articleInfo (penEnv 12) sampleArticle))) = 322 / 5
   \<and> map run_y (runsOf (doc_ops (processMarkdownContent (penEnv 12)
        (js ''**bold**'' @ [0x0A] @ js ''next'')
        (newPDFDocument 50 False (articleInfo (penEnv 12) sampleArticle)))))
     = [50, 50, 50, 262 / 5]"
proof -
  let ?e = "penEnv 12"
  let ?d = "newPDFDocument 50 False (articleInfo ?e sampleArticle)"
  have layout: "\<forall>d s opts. layoutText ?e d s opts
      = (0, if opt_continued opts \<or> s = [] then doc_y d else doc_y d + 12)"
    by (simp add: penEnv_def)
  have lh: "\<And>f z. currentLineHeight ?e f z = 12"
    by (simp add: penEnv_def lineEnv_def)
  have d: "doc_y ?d = 50" "doc_ops ?d = []"
    by (simp_all add: newPDFDocument_def)
  have sp: "jsSplit (js ''**'') (js ''**bold** x'') = [[], js ''bold'', js '' x'']"
    by (simp add: js_def Let_def)
  have x: "js '' x'' \<noteq> []" by (simp add: js_def)
  note thm1 = processBoldText_segments_and_pen [of ?e "js ''**bold**''" ?d 12]
  note thm2 = processBoldText_segments_and_pen [of ?e "js ''**bold** x''" ?d 12]
  have y1: "doc_y (processBoldText ?e (js ''**bold**'') ?d) = 262 / 5"
    using thm1 layout by (simp add: split_bold_only lh d)
  have y2: "doc_y (processBoldText ?e (js ''**bold** x'') ?d) = 322 / 5"
    using thm2 layout by (simp add: sp x lh d)
  have r1: "map run_y (runsOf (doc_ops (processBoldText ?e (js ''**bold**'') ?d))) = [50, 50, 50]"
    using thm1 layout by (simp add: split_bold_only d numeral_3_eq_3)
  have lines: "jsSplit [0x0A] (js ''**bold**'' @ [0x0A] @ js ''next'') = [js ''**bold**'', js ''next'']"
    by (simp add: js_def Let_def)
  have k1: "jsTrim (js ''**bold**'') = js ''**bold**''" "specClassify (js ''**bold**'') = BoldLine"
    by (simp_all add: jsTrim_def specClassify_def specRules_def js_def isWhiteSpace_def
        matchesNumbered_spec [symmetric] matchesNumbered_def isDigit_def)
  have k2: "jsTrim (js ''next'') = js ''next''" "specClassify (js ''next'') = Paragraph"
    by (simp_all add: jsTrim_def specClassify_def specRules_def js_def isWhiteSpace_def
        matchesNumbered_spec [symmetric] matchesNumbered_def isDigit_def)
  have "map run_y (runsOf (doc_ops (processMarkdownContent ?e
        (js ''**bold**'' @ [0x0A] @ js ''next'') ?d))) = [50, 50, 50, 262 / 5]"
    unfolding processMarkdownContent_def Let_def lines
    by (simp add: processLine_lineStyle k1 k2 chain_def moveDown_def docText_runs
        fontSize_def font_def fillColor_def r1 y1)
  with y1 y2 layout show ?thesis
    by (simp add: split_bold_only)
qed

section \<open>The tag chips of an article\<close>










end
